theory Spec2Isabelle
  imports Complex_Main
begin

section \<open>Values, dictionaries and the multigraph\<close>

text \<open>
  The builder of \<^verbatim>\<open>src/integrations/knowledge_graph_builder.py\<close> keeps one
  \<^verbatim>\<open>networkx.MultiDiGraph\<close> and fills it from the answers of an ERPNext connector.
  Attribute values are dynamically typed; the scalar values that occur are modelled by
  \<open>pyval\<close> (floating-point values are left out). A dictionary is an association list in
  insertion order with pairwise different keys.
\<close>

datatype pyval = VNone | VBool bool | VInt int | VStr string

type_synonym pydict = "(string \<times> pyval) list"

text \<open>Truth value of a Python object, as tested by \<^verbatim>\<open>if x:\<close> and \<^verbatim>\<open>bool(x)\<close>.\<close>

fun truthy :: "pyval \<Rightarrow> bool" where
  "truthy VNone = False"
| "truthy (VBool b) = b"
| "truthy (VInt i) = (i \<noteq> 0)"
| "truthy (VStr s) = (s \<noteq> [])"

fun str_nat :: "nat \<Rightarrow> string" where
  "str_nat n = (if n < 10 then [''0123456789'' ! n]
                else str_nat (n div 10) @ [''0123456789'' ! (n mod 10)])"

declare str_nat.simps [simp del]

text \<open>\<^verbatim>\<open>str(x)\<close>, which is also what an f-string prints.\<close>

fun py_str :: "pyval \<Rightarrow> string" where
  "py_str VNone = ''None''"
| "py_str (VBool b) = (if b then ''True'' else ''False'')"
| "py_str (VInt i) = (if i < 0 then CHR ''-'' # str_nat (nat (- i)) else str_nat (nat i))"
| "py_str (VStr s) = s"

text \<open>A node name that may be \<^verbatim>\<open>None\<close>, printed by an f-string.\<close>

definition fmt_name :: "string option \<Rightarrow> string" where
  "fmt_name d = (case d of None \<Rightarrow> ''None'' | Some s \<Rightarrow> s)"

text \<open>\<^verbatim>\<open>d.get(k)\<close>, \<^verbatim>\<open>d.get(k, default)\<close>, \<^verbatim>\<open>d[k] = v\<close> and \<^verbatim>\<open>d.update(e)\<close>.\<close>

definition dget :: "pydict \<Rightarrow> string \<Rightarrow> pyval \<Rightarrow> pyval" where
  "dget d k dflt = (case map_of d k of None \<Rightarrow> dflt | Some v \<Rightarrow> v)"

fun dset :: "pydict \<Rightarrow> string \<Rightarrow> pyval \<Rightarrow> pydict" where
  "dset [] k v = [(k, v)]"
| "dset ((k', v') # d) k v = (if k' = k then (k, v) # d else (k', v') # dset d k v)"

fun dupdate :: "pydict \<Rightarrow> pydict \<Rightarrow> pydict" where
  "dupdate d [] = d"
| "dupdate d ((k, v) # e) = dupdate (dset d k v) e"

text \<open>
  As keys of a dictionary \<^verbatim>\<open>True\<close> and \<^verbatim>\<open>1\<close> (and \<^verbatim>\<open>False\<close> and \<^verbatim>\<open>0\<close>) are one
  key: two values are the same key when \<open>hkey\<close> maps them to the same value.
\<close>

fun hkey :: "pyval \<Rightarrow> pyval" where
  "hkey (VBool b) = VInt (if b then 1 else 0)"
| "hkey v = v"

text \<open>
  The graph: \<open>g_nodes\<close> is the node dictionary of the library (node name to attribute
  dictionary, in insertion order), \<open>g_edges\<close> holds every edge with its attribute
  dictionary, parallel edges included, in the order of their insertion, and \<open>g_keys\<close>
  holds, edge by edge, the key under which the library keeps the edge between its two
  nodes. Node names are strings; \<^verbatim>\<open>None\<close> is refused by the library and never becomes
  a node.
\<close>

record mdgraph =
  g_nodes :: "(string \<times> pydict) list"
  g_edges :: "(string \<times> string \<times> pydict) list"
  g_keys :: "pyval list"

definition empty_graph :: mdgraph where
  "empty_graph = \<lparr>g_nodes = [], g_edges = [], g_keys = []\<rparr>"

datatype error = ValueError string | TypeError string | LibraryError string

fun error_msg :: "error \<Rightarrow> string" where
  "error_msg (ValueError m) = m"
| "error_msg (TypeError m) = m"
| "error_msg (LibraryError m) = m"

definition has_node :: "mdgraph \<Rightarrow> string \<Rightarrow> bool" where
  "has_node g n = (n \<in> set (map fst (g_nodes g)))"

definition number_of_nodes :: "mdgraph \<Rightarrow> nat" where
  "number_of_nodes g = length (g_nodes g)"

definition number_of_edges :: "mdgraph \<Rightarrow> nat" where
  "number_of_edges g = length (g_edges g)"

text \<open>
  \<^verbatim>\<open>G.add_node(n, **attr)\<close>: a new node gets the attributes, an old one has them merged
  into its dictionary.
\<close>

fun node_upsert :: "(string \<times> pydict) list \<Rightarrow> string \<Rightarrow> pydict \<Rightarrow> (string \<times> pydict) list" where
  "node_upsert [] n a = [(n, dupdate [] a)]"
| "node_upsert ((m, b) # ns) n a =
     (if m = n then (m, dupdate b a) # ns else (m, b) # node_upsert ns n a)"

definition nx_add_node :: "mdgraph \<Rightarrow> string \<Rightarrow> pydict \<Rightarrow> mdgraph" where
  "nx_add_node g n a = g\<lparr>g_nodes := node_upsert (g_nodes g) n a\<rparr>"

text \<open>
  \<^verbatim>\<open>G.add_edge(u, v, key=None, **attr)\<close>. An endpoint that is not a node yet is created
  with no attributes. Without a key the library takes a new one (\<^verbatim>\<open>new_edge_key\<close>): the
  number of edges between the two nodes, counted up while it is a key in use. With a key
  that an edge between the two nodes has, the attributes are merged into that edge;
  otherwise a new edge is appended under the key.
\<close>

definition ensure_node :: "(string \<times> pydict) list \<Rightarrow> string \<Rightarrow> (string \<times> pydict) list" where
  "ensure_node ns n = (if n \<in> set (map fst ns) then ns else ns @ [(n, [])])"

definition edge_keys :: "mdgraph \<Rightarrow> string \<Rightarrow> string \<Rightarrow> pyval list" where
  "edge_keys g u v =
     map snd (filter (\<lambda>(e, k). fst e = u \<and> fst (snd e) = v) (zip (g_edges g) (g_keys g)))"

text \<open>The loop of \<^verbatim>\<open>new_edge_key\<close>; it ends within as many steps as there are keys.\<close>

fun probe_key :: "pyval list \<Rightarrow> nat \<Rightarrow> nat \<Rightarrow> nat" where
  "probe_key ks n 0 = n"
| "probe_key ks n (Suc fuel) =
     (if VInt (int n) \<in> set (map hkey ks) then probe_key ks (Suc n) fuel else n)"

definition new_edge_key :: "pyval list \<Rightarrow> pyval" where
  "new_edge_key ks = VInt (int (probe_key ks (length ks) (length ks)))"

text \<open>The place of the edge from \<open>u\<close> to \<open>v\<close> kept under the key \<open>k\<close>, if there is one.\<close>

fun find_edge ::
  "((string \<times> string \<times> pydict) \<times> pyval) list \<Rightarrow> string \<Rightarrow> string \<Rightarrow> pyval \<Rightarrow> nat option" where
  "find_edge [] u v k = None"
| "find_edge ((e, k') # rest) u v k =
     (if fst e = u \<and> fst (snd e) = v \<and> hkey k' = hkey k then Some 0
      else map_option Suc (find_edge rest u v k))"

definition nx_add_edge :: "mdgraph \<Rightarrow> string \<Rightarrow> string \<Rightarrow> pyval option \<Rightarrow> pydict \<Rightarrow> mdgraph" where
  "nx_add_edge g u v key a =
    (let ns = ensure_node (ensure_node (g_nodes g) u) v;
         k = (case key of
                None \<Rightarrow> new_edge_key (edge_keys g u v)
              | Some VNone \<Rightarrow> new_edge_key (edge_keys g u v)
              | Some k' \<Rightarrow> k')
     in case find_edge (zip (g_edges g) (g_keys g)) u v k of
          Some i \<Rightarrow>
            g\<lparr>g_nodes := ns,
              g_edges := (g_edges g)[i := (u, v, dupdate (snd (snd (g_edges g ! i))) a)]\<rparr>
        | None \<Rightarrow>
            \<lparr>g_nodes = ns, g_edges = g_edges g @ [(u, v, dupdate [] a)],
             g_keys = g_keys g @ [k]\<rparr>)"

text \<open>
  The two calls as the builder makes them, with a name that may be \<^verbatim>\<open>None\<close> and with a
  dictionary spread into keyword arguments (\<^verbatim>\<open>**metadata\<close>). A keyword that is the name
  of a parameter already given by position makes the call itself a \<^verbatim>\<open>TypeError\<close>, before
  the library runs; the keyword \<^verbatim>\<open>key\<close> of \<^verbatim>\<open>add_edge\<close> is its parameter, not an
  attribute. For \<^verbatim>\<open>None\<close> the library raises \<^verbatim>\<open>ValueError\<close>; \<^verbatim>\<open>add_edge\<close> has by then
  made a node of its first name. A failed \<^verbatim>\<open>add_edge\<close> returns the graph as the failure
  leaves it with the error.
\<close>

definition has_key :: "pydict \<Rightarrow> string \<Rightarrow> bool" where
  "has_key d k = (map_of d k \<noteq> None)"

definition add_node_opt :: "mdgraph \<Rightarrow> string option \<Rightarrow> pydict \<Rightarrow> error + mdgraph" where
  "add_node_opt g n kw =
     (if has_key kw ''self'' \<or> has_key kw ''node_for_adding''
      then Inl (TypeError ''add_node() got multiple values for an argument'')
      else case n of
             None \<Rightarrow> Inl (ValueError ''None cannot be a node'')
           | Some m \<Rightarrow> Inr (nx_add_node g m kw))"

definition add_edge_opt ::
  "mdgraph \<Rightarrow> string option \<Rightarrow> string option \<Rightarrow> pydict \<Rightarrow> (error \<times> mdgraph) + mdgraph" where
  "add_edge_opt g u v kw =
     (if has_key kw ''self'' \<or> has_key kw ''u_for_edge'' \<or> has_key kw ''v_for_edge''
      then Inl (TypeError ''add_edge() got multiple values for an argument'', g)
      else case u of
             None \<Rightarrow> Inl (ValueError ''None cannot be a node'', g)
           | Some x \<Rightarrow>
               (case v of
                  None \<Rightarrow>
                    Inl (ValueError ''None cannot be a node'',
                         g\<lparr>g_nodes := ensure_node (g_nodes g) x\<rparr>)
                | Some y \<Rightarrow>
                    Inr (nx_add_edge g x y (map_of kw ''key'')
                           (filter (\<lambda>(k, val). k \<noteq> ''key'') kw))))"

section \<open>The connector's answers\<close>

text \<open>
  The connector (\<^verbatim>\<open>src/integrations/erpnext_connector.py\<close>) talks to a running ERPNext
  over HTTP or a bench console; what it answers is the input of the builder. A schema is
  the dictionary \<^verbatim>\<open>get_doctype_schema\<close> returns: its scalar entries and, held apart,
  its \<^verbatim>\<open>fields\<close> entry: missing, null, or a list of fields. A field is read through
  \<^verbatim>\<open>field.get('fieldtype')\<close> and \<^verbatim>\<open>field.get('options')\<close> only, both strings or
  missing. \<^verbatim>\<open>get_doctype_schema\<close> catches every exception of its own and returns
  \<^verbatim>\<open>{}\<close> then.
\<close>

record schema_field =
  f_fieldtype :: "string option"
  f_options :: "string option"

datatype fields_entry = FieldsMissing | FieldsNull | Fields "schema_field list"

record schema =
  s_scalars :: pydict
  s_fields :: fields_entry

definition empty_schema :: schema where
  "empty_schema = \<lparr>s_scalars = [], s_fields = FieldsMissing\<rparr>"

text \<open>\<^verbatim>\<open>not schema\<close>: the dictionary has no entry at all.\<close>

definition schema_is_empty :: "schema \<Rightarrow> bool" where
  "schema_is_empty s = (s_scalars s = [] \<and> s_fields s = FieldsMissing)"

text \<open>
  An entry of the type listing is a dictionary, of which only \<^verbatim>\<open>.get('name')\<close> is read
  (a string, or \<^verbatim>\<open>None\<close> when the key is missing), or the name itself.
\<close>

datatype doctype_info = InfoDict "string option" | InfoName string

fun info_name :: "doctype_info \<Rightarrow> string option" where
  "info_name (InfoDict n) = n"
| "info_name (InfoName s) = Some s"

record erpnext =
  test_connection :: bool
  get_doctypes :: "doctype_info list"
  get_doctype_schema :: "string \<Rightarrow> schema"
  get_sample_documents :: "string \<Rightarrow> int \<Rightarrow> pydict list"

section \<open>The builder\<close>

definition known_relationships :: "(string \<times> string list) list" where
  "known_relationships =
    [(''Customer'', [''Sales Order'', ''Sales Invoice'', ''Quotation'', ''Opportunity'']),
     (''Supplier'', [''Purchase Order'', ''Purchase Invoice'', ''Request for Quotation'']),
     (''Item'', [''Sales Order Item'', ''Purchase Order Item'', ''Stock Entry'']),
     (''Project'', [''Task'', ''Timesheet'', ''Project Update'']),
     (''Employee'', [''Task'', ''Timesheet'', ''Leave Application'', ''Expense Claim'']),
     (''Sales Order'', [''Sales Invoice'', ''Delivery Note'', ''Sales Order Item'']),
     (''Purchase Order'', [''Purchase Invoice'', ''Purchase Receipt'', ''Purchase Order Item''])]"

record relationships =
  links_to :: "string list"
  linked_from :: "string list"
  child_tables :: "string list"

text \<open>
  The target a field names: \<^verbatim>\<open>field['options']\<close> when \<^verbatim>\<open>field.get('options')\<close>
  is true (a string that is not empty).
\<close>

definition field_target :: "schema_field \<Rightarrow> string option" where
  "field_target f = (case f_options f of None \<Rightarrow> None | Some s \<Rightarrow> if s = [] then None else Some s)"

text \<open>
  The loop over the schema's fields of \<^verbatim>\<open>discover_doctype_relationships\<close>. Both
  branches ask for a true \<^verbatim>\<open>options\<close> entry, the first for the field type \<open>Link\<close>,
  the second for \<open>Table\<close>.
\<close>

fun scan_fields :: "schema_field list \<Rightarrow> relationships \<Rightarrow> relationships" where
  "scan_fields [] r = r"
| "scan_fields (f # fs) r =
     (case field_target f of
        None \<Rightarrow> scan_fields fs r
      | Some t \<Rightarrow>
          if f_fieldtype f = Some ''Link''
          then scan_fields fs (r\<lparr>links_to := links_to r @ [t]\<rparr>)
          else if f_fieldtype f = Some ''Table''
          then scan_fields fs (r\<lparr>child_tables := child_tables r @ [t]\<rparr>)
          else scan_fields fs r)"

text \<open>
  What follows the schema test in \<^verbatim>\<open>discover_doctype_relationships\<close>, for a list of
  fields: the loop, then the table of known relationships, of which \<^verbatim>\<open>None\<close> is no key.
\<close>

definition relationships_of_fields :: "string option \<Rightarrow> schema_field list \<Rightarrow> relationships" where
  "relationships_of_fields doctype fs =
    (let r = scan_fields fs \<lparr>links_to = [], linked_from = [], child_tables = []\<rparr>
     in case doctype of
          None \<Rightarrow> r
        | Some d \<Rightarrow>
            (case map_of known_relationships d of
               None \<Rightarrow> r
             | Some ks \<Rightarrow> r\<lparr>links_to := links_to r @ ks\<rparr>))"

text \<open>
  \<^verbatim>\<open>discover_doctype_relationships\<close>. The request for \<^verbatim>\<open>None\<close> is the request for the
  name it prints as. A null \<^verbatim>\<open>fields\<close> entry makes the loop raise \<^verbatim>\<open>TypeError\<close>, which
  the \<^verbatim>\<open>except\<close> clause catches: the relationships are returned as they are then, empty.
\<close>

definition discover_doctype_relationships :: "erpnext \<Rightarrow> string option \<Rightarrow> relationships" where
  "discover_doctype_relationships erp doctype =
    (let relationships = \<lparr>links_to = [], linked_from = [], child_tables = []\<rparr>;
         schema = get_doctype_schema erp (fmt_name doctype)
     in if schema_is_empty schema then relationships
        else case s_fields schema of
               FieldsMissing \<Rightarrow> relationships_of_fields doctype []
             | FieldsNull \<Rightarrow> relationships
             | Fields fs \<Rightarrow> relationships_of_fields doctype fs)"

text \<open>
  \<^verbatim>\<open>add_doctype_node\<close>: the schema's summary is merged over the caller's metadata. The
  summary counts the fields with \<^verbatim>\<open>len\<close>, which raises \<^verbatim>\<open>TypeError\<close> on a null
  \<^verbatim>\<open>fields\<close> entry; the method catches nothing.
\<close>

definition schema_summary :: "schema \<Rightarrow> nat \<Rightarrow> pydict" where
  "schema_summary s field_count =
    [(''node_type'', VStr ''doctype''),
     (''module'', dget (s_scalars s) ''module'' (VStr ''Unknown'')),
     (''is_custom'', dget (s_scalars s) ''custom'' (VInt 0)),
     (''is_virtual'', dget (s_scalars s) ''is_virtual'' (VInt 0)),
     (''field_count'', VInt (int field_count)),
     (''has_web_view'', VBool (truthy (dget (s_scalars s) ''has_web_view'' (VInt 0)))),
     (''is_submittable'', VBool (truthy (dget (s_scalars s) ''is_submittable'' (VInt 0))))]"

definition schema_metadata :: "schema \<Rightarrow> error + pydict" where
  "schema_metadata s =
    (case s_fields s of
       FieldsMissing \<Rightarrow> Inr (schema_summary s 0)
     | FieldsNull \<Rightarrow> Inl (TypeError ''object of type 'NoneType' has no len()'')
     | Fields fs \<Rightarrow> Inr (schema_summary s (length fs)))"

definition doctype_node_metadata ::
  "erpnext \<Rightarrow> string option \<Rightarrow> pydict option \<Rightarrow> error + pydict" where
  "doctype_node_metadata erp doctype metadata =
    (let md = (case metadata of None \<Rightarrow> [] | Some m \<Rightarrow> m);
         schema = get_doctype_schema erp (fmt_name doctype)
     in if schema_is_empty schema then Inr md
        else case schema_metadata schema of
               Inl e \<Rightarrow> Inl e
             | Inr sm \<Rightarrow> Inr (dupdate md sm))"

definition add_doctype_node ::
  "erpnext \<Rightarrow> mdgraph \<Rightarrow> string option \<Rightarrow> pydict option \<Rightarrow> error + mdgraph" where
  "add_doctype_node erp g doctype metadata =
    (case doctype_node_metadata erp doctype metadata of
       Inl e \<Rightarrow> Inl e
     | Inr md \<Rightarrow> add_node_opt g doctype md)"

text \<open>
  \<^verbatim>\<open>add_document_node\<close>; the type name is a string (\<^verbatim>\<open>doctype: str\<close>), the record name
  any value, printed into the node's name. It returns the node's name with the graph.
\<close>

fun business_fields :: "string list \<Rightarrow> pydict \<Rightarrow> pydict \<Rightarrow> pydict" where
  "business_fields [] doc_data md = md"
| "business_fields (f # fs) doc_data md =
     (if truthy (dget doc_data f VNone)
      then business_fields fs doc_data (dset md f (VStr (py_str (dget doc_data f VNone))))
      else business_fields fs doc_data md)"

definition document_node_id :: "string \<Rightarrow> pyval \<Rightarrow> string" where
  "document_node_id doctype doc_name = doctype @ ''::'' @ py_str doc_name"

definition document_metadata :: "string \<Rightarrow> pyval \<Rightarrow> pydict \<Rightarrow> pydict" where
  "document_metadata doctype doc_name doc_data =
    business_fields [''customer'', ''supplier'', ''company'', ''item_code'', ''project''] doc_data
      [(''node_type'', VStr ''document''),
       (''doctype'', VStr doctype),
       (''name'', doc_name),
       (''status'', dget doc_data ''status'' (VStr ''Unknown'')),
       (''docstatus'', dget doc_data ''docstatus'' (VInt 0)),
       (''creation'', dget doc_data ''creation'' (VStr [])),
       (''modified'', dget doc_data ''modified'' (VStr []))]"

definition add_document_node ::
  "mdgraph \<Rightarrow> string \<Rightarrow> pyval \<Rightarrow> pydict \<Rightarrow> string \<times> mdgraph" where
  "add_document_node g doctype doc_name doc_data =
    (let node_id = document_node_id doctype doc_name;
         g1 = nx_add_node g node_id (document_metadata doctype doc_name doc_data);
         g2 = nx_add_edge g1 node_id doctype None [(''relationship'', VStr ''instance_of'')]
     in (node_id, g2))"

text \<open>
  \<^verbatim>\<open>add_relationship_edge\<close>; \<open>now\<close> is what \<^verbatim>\<open>datetime.now().isoformat()\<close> reads at
  the call. The metadata, with the two entries the method sets, are spread into the
  keyword arguments of \<^verbatim>\<open>add_edge\<close>.
\<close>

definition add_relationship_edge ::
  "mdgraph \<Rightarrow> string option \<Rightarrow> string option \<Rightarrow> string \<Rightarrow> pydict option \<Rightarrow> string
     \<Rightarrow> (error \<times> mdgraph) + mdgraph" where
  "add_relationship_edge g from_node to_node relationship_type metadata now =
    (let md = (case metadata of None \<Rightarrow> [] | Some m \<Rightarrow> m);
         md1 = dset md ''relationship_type'' (VStr relationship_type);
         md2 = dset md1 ''created_at'' (VStr now)
     in add_edge_opt g from_node to_node md2)"

section \<open>The type-level build\<close>

text \<open>
  Both result dictionaries share three entries; \<open>error\<close> is \<open>None\<close> while the key is
  not set. The clock \<open>ck\<close> gives what \<^verbatim>\<open>datetime.now().isoformat()\<close> reads when the
  graph holds \<open>k\<close> edges.
\<close>

record build_results =
  relationships_found :: nat
  errors :: "string list"
  error :: "string option"

record schema_results = build_results +
  doctypes_processed :: nat

record document_results = build_results +
  doctype :: string
  documents_processed :: nat

text \<open>First loop of \<^verbatim>\<open>build_doctype_schema_graph\<close>: one node for each listed type.\<close>

fun add_doctype_nodes ::
  "erpnext \<Rightarrow> doctype_info list \<Rightarrow> mdgraph \<Rightarrow> schema_results \<Rightarrow> mdgraph \<times> schema_results" where
  "add_doctype_nodes erp [] g r = (g, r)"
| "add_doctype_nodes erp (i # infos) g r =
     (case add_doctype_node erp g (info_name i) None of
        Inr g' \<Rightarrow>
          add_doctype_nodes erp infos g' (r\<lparr>doctypes_processed := doctypes_processed r + 1\<rparr>)
      | Inl e \<Rightarrow>
          add_doctype_nodes erp infos g
            (r\<lparr>errors := errors r @
               [''Error adding DocType '' @ fmt_name (info_name i) @ '': '' @ error_msg e]\<rparr>))"

text \<open>
  The two inner loops of the second pass: an edge to each target that is a node. An
  exception leaves the loop with the graph as the failed call left it and the count as
  it is; it is returned in the third component.
\<close>

fun add_links ::
  "(nat \<Rightarrow> string) \<Rightarrow> string option \<Rightarrow> string \<Rightarrow> string list \<Rightarrow> mdgraph \<Rightarrow> schema_results
     \<Rightarrow> mdgraph \<times> schema_results \<times> error option" where
  "add_links ck src kind [] g r = (g, r, None)"
| "add_links ck src kind (t # ts) g r =
     (if has_node g t
      then (case add_relationship_edge g src (Some t) kind None (ck (number_of_edges g)) of
              Inl (e, g') \<Rightarrow> (g', r, Some e)
            | Inr g' \<Rightarrow>
                add_links ck src kind ts g' (r\<lparr>relationships_found := relationships_found r + 1\<rparr>))
      else add_links ck src kind ts g r)"

definition relationship_error :: "string option \<Rightarrow> error \<Rightarrow> string" where
  "relationship_error d e = ''Error adding relationships for '' @ fmt_name d @ '': '' @ error_msg e"

text \<open>The body of the second loop for one type, with its \<^verbatim>\<open>try\<close>.\<close>

definition add_doctype_relationships ::
  "erpnext \<Rightarrow> (nat \<Rightarrow> string) \<Rightarrow> string option \<Rightarrow> mdgraph \<Rightarrow> schema_results
     \<Rightarrow> mdgraph \<times> schema_results" where
  "add_doctype_relationships erp ck d g r =
    (let rel = discover_doctype_relationships erp d
     in case add_links ck d ''links_to'' (links_to rel) g r of
          (g1, r1, Some e) \<Rightarrow> (g1, r1\<lparr>errors := errors r1 @ [relationship_error d e]\<rparr>)
        | (g1, r1, None) \<Rightarrow>
            (case add_links ck d ''has_child_table'' (child_tables rel) g1 r1 of
               (g2, r2, Some e) \<Rightarrow> (g2, r2\<lparr>errors := errors r2 @ [relationship_error d e]\<rparr>)
             | (g2, r2, None) \<Rightarrow> (g2, r2)))"

fun add_all_relationships ::
  "erpnext \<Rightarrow> (nat \<Rightarrow> string) \<Rightarrow> doctype_info list \<Rightarrow> mdgraph \<Rightarrow> schema_results
     \<Rightarrow> mdgraph \<times> schema_results" where
  "add_all_relationships erp ck [] g r = (g, r)"
| "add_all_relationships erp ck (i # infos) g r =
     (case add_doctype_relationships erp ck (info_name i) g r of
        (g', r') \<Rightarrow> add_all_relationships erp ck infos g' r')"

definition build_doctype_schema_graph ::
  "erpnext \<Rightarrow> (nat \<Rightarrow> string) \<Rightarrow> mdgraph \<Rightarrow> mdgraph \<times> schema_results" where
  "build_doctype_schema_graph erp ck g =
    (let results = \<lparr>relationships_found = 0, errors = [], error = None, doctypes_processed = 0\<rparr>
     in if \<not> test_connection erp
        then (g, results\<lparr>error := Some ''Could not connect to ERPNext''\<rparr>)
        else
          let doctypes = get_doctypes erp
          in if doctypes = []
             then (g, results\<lparr>error := Some ''No DocTypes found''\<rparr>)
             else (case add_doctype_nodes erp doctypes g results of
                     (g1, r1) \<Rightarrow> add_all_relationships erp ck doctypes g1 r1))"

section \<open>The instance-level build\<close>

text \<open>First loop of \<^verbatim>\<open>build_document_relationship_graph\<close>: a node for every record
  whose \<^verbatim>\<open>name\<close> is true; \<open>document_nodes\<close> collects the pairs of node name and record.\<close>

fun add_document_nodes ::
  "string \<Rightarrow> pydict list \<Rightarrow> mdgraph \<Rightarrow> (string \<times> pydict) list \<Rightarrow> document_results
     \<Rightarrow> mdgraph \<times> (string \<times> pydict) list \<times> document_results" where
  "add_document_nodes dt [] g document_nodes r = (g, document_nodes, r)"
| "add_document_nodes dt (doc # docs) g document_nodes r =
     (let doc_name = dget doc ''name'' VNone
      in if truthy doc_name
         then (case add_document_node g dt doc_name doc of
                 (node_id, g') \<Rightarrow>
                   add_document_nodes dt docs g' (document_nodes @ [(node_id, doc)])
                     (r\<lparr>documents_processed := documents_processed r + 1\<rparr>))
         else add_document_nodes dt docs g document_nodes r)"

text \<open>Innermost loop: the other sampled records whose name is the field's value.\<close>

fun match_others ::
  "(nat \<Rightarrow> string) \<Rightarrow> string \<Rightarrow> string \<Rightarrow> string \<Rightarrow> (string \<times> pydict) list \<Rightarrow> mdgraph
     \<Rightarrow> document_results \<Rightarrow> mdgraph \<times> document_results \<times> error option" where
  "match_others ck node_id field_name field_value [] g r = (g, r, None)"
| "match_others ck node_id field_name field_value ((other_node_id, other_doc) # others) g r =
     (if other_node_id \<noteq> node_id \<and> dget other_doc ''name'' VNone = VStr field_value
      then (case add_relationship_edge g (Some node_id) (Some other_node_id)
                   (''references_'' @ field_name) None (ck (number_of_edges g)) of
              Inl (e, g') \<Rightarrow> (g', r, Some e)
            | Inr g' \<Rightarrow>
                match_others ck node_id field_name field_value others g'
                  (r\<lparr>relationships_found := relationships_found r + 1\<rparr>))
      else match_others ck node_id field_name field_value others g r)"

text \<open>The loop over \<^verbatim>\<open>doc.items()\<close>: only a string that is not empty is looked up.\<close>

fun match_fields ::
  "(nat \<Rightarrow> string) \<Rightarrow> string \<Rightarrow> pydict \<Rightarrow> (string \<times> pydict) list \<Rightarrow> mdgraph
     \<Rightarrow> document_results \<Rightarrow> mdgraph \<times> document_results \<times> error option" where
  "match_fields ck node_id [] document_nodes g r = (g, r, None)"
| "match_fields ck node_id ((field_name, field_value) # items) document_nodes g r =
     (case field_value of
        VStr v \<Rightarrow>
          (if v \<noteq> []
           then (case match_others ck node_id field_name v document_nodes g r of
                   (g', r', Some e) \<Rightarrow> (g', r', Some e)
                 | (g', r', None) \<Rightarrow> match_fields ck node_id items document_nodes g' r')
           else match_fields ck node_id items document_nodes g r)
      | _ \<Rightarrow> match_fields ck node_id items document_nodes g r)"

text \<open>The loop over the collected nodes, with its \<^verbatim>\<open>try\<close> around each node.\<close>

fun find_relationships ::
  "(nat \<Rightarrow> string) \<Rightarrow> (string \<times> pydict) list \<Rightarrow> (string \<times> pydict) list \<Rightarrow> mdgraph
     \<Rightarrow> document_results \<Rightarrow> mdgraph \<times> document_results" where
  "find_relationships ck [] document_nodes g r = (g, r)"
| "find_relationships ck ((node_id, doc) # rest) document_nodes g r =
     (case match_fields ck node_id doc document_nodes g r of
        (g', r', Some e) \<Rightarrow>
          find_relationships ck rest document_nodes g'
            (r'\<lparr>errors := errors r' @
               [''Error finding relationships for '' @ node_id @ '': '' @ error_msg e]\<rparr>)
      | (g', r', None) \<Rightarrow> find_relationships ck rest document_nodes g' r')"

definition build_document_relationship_graph ::
  "erpnext \<Rightarrow> (nat \<Rightarrow> string) \<Rightarrow> mdgraph \<Rightarrow> string \<Rightarrow> int \<Rightarrow> mdgraph \<times> document_results" where
  "build_document_relationship_graph erp ck g dt limit =
    (let results = \<lparr>relationships_found = 0, errors = [], error = None,
                     doctype = dt, documents_processed = 0\<rparr>;
         documents = get_sample_documents erp dt limit
     in if documents = []
        then (g, results\<lparr>error := Some (''No documents found for '' @ dt)\<rparr>)
        else (case add_document_nodes dt documents g [] results of
                (g1, document_nodes, r1) \<Rightarrow>
                  find_relationships ck document_nodes document_nodes g1 r1))"

section \<open>Statistics\<close>

text \<open>A histogram is the dictionary from tag to count, read as a finite map.\<close>

definition hist_bump :: "(pyval \<rightharpoonup> nat) \<Rightarrow> pyval \<Rightarrow> (pyval \<rightharpoonup> nat)" where
  "hist_bump h k = h(hkey k \<mapsto> (case h (hkey k) of None \<Rightarrow> 0 | Some c \<Rightarrow> c) + 1)"

definition node_type_histogram :: "mdgraph \<Rightarrow> (pyval \<rightharpoonup> nat)" where
  "node_type_histogram g =
     foldl (\<lambda>h (node, data). hist_bump h (dget data ''node_type'' (VStr ''unknown'')))
       Map.empty (g_nodes g)"

definition relationship_type_histogram :: "mdgraph \<Rightarrow> (pyval \<rightharpoonup> nat)" where
  "relationship_type_histogram g =
     foldl (\<lambda>h (u, v, data). hist_bump h (dget data ''relationship_type'' (VStr ''unknown'')))
       Map.empty (g_edges g)"

text \<open>
  \<^verbatim>\<open>G.degree()\<close> of a directed multigraph: the edges leaving the node plus the edges
  entering it, every parallel edge counted.
\<close>

definition degree :: "mdgraph \<Rightarrow> string \<Rightarrow> nat" where
  "degree g n = length [e \<leftarrow> g_edges g. fst e = n] + length [e \<leftarrow> g_edges g. fst (snd e) = n]"

text \<open>
  Floating point. A double is the rational number it stands for, and \<open>to_double\<close> rounds
  a rational to the nearest double, a tie to the even mantissa of 53 bits; the exponent
  is not bounded, so the values are the library's as long as they are in the range of the
  normal doubles. \<open>floor_log2 q\<close> is the integer \<open>e\<close> with \<open>2 ^ e \<le> q < 2 ^ (e + 1)\<close> for
  a positive \<open>q\<close>.
\<close>

fun bit_length :: "nat \<Rightarrow> nat" where
  "bit_length n = (if n = 0 then 0 else Suc (bit_length (n div 2)))"

declare bit_length.simps [simp del]

definition floor_log2 :: "rat \<Rightarrow> int" where
  "floor_log2 q =
     (if 1 \<le> q then int (bit_length (nat \<lfloor>q\<rfloor>)) - 1
      else - int (bit_length (nat (\<lceil>1 / q\<rceil> - 1))))"

definition round_half_even :: "rat \<Rightarrow> int" where
  "round_half_even x =
     (let f = \<lfloor>x\<rfloor>; r = x - of_int f
      in if r < 1 / 2 then f else if 1 / 2 < r then f + 1 else if even f then f else f + 1)"

definition pow2 :: "int \<Rightarrow> rat" where
  "pow2 e = (if 0 \<le> e then 2 ^ nat e else 1 / 2 ^ nat (- e))"

definition to_double :: "rat \<Rightarrow> rat" where
  "to_double q =
     (if q = 0 then 0
      else let a = \<bar>q\<bar>; e = floor_log2 a - 52; m = round_half_even (a / pow2 e)
           in sgn q * of_int m * pow2 e)"

text \<open>
  The score of a node of degree \<open>d\<close> among \<open>n\<close> nodes, \<open>n\<close> at least two:
  \<^verbatim>\<open>d * s\<close> with \<^verbatim>\<open>s = 1.0 / (len(G) - 1.0)\<close>, each integer converted to a double and
  each operation rounded.
\<close>

definition centrality_score :: "nat \<Rightarrow> nat \<Rightarrow> rat" where
  "centrality_score d n =
     to_double (to_double (of_nat d) * to_double (1 / to_double (to_double (of_nat n) - 1)))"

text \<open>
  \<^verbatim>\<open>nx.degree_centrality\<close>: every node gets the integer 1 in a graph of at most one
  node, and the score of its degree otherwise.
\<close>

definition degree_centrality :: "mdgraph \<Rightarrow> (string \<times> rat) list" where
  "degree_centrality g =
    (if number_of_nodes g \<le> 1 then map (\<lambda>(n, data). (n, 1)) (g_nodes g)
     else map (\<lambda>(n, data). (n, centrality_score (degree g n) (number_of_nodes g))) (g_nodes g))"

record statistics =
  nodes :: nat
  edges :: nat
  node_types :: "pyval \<rightharpoonup> nat"
  relationship_types :: "pyval \<rightharpoonup> nat"
  most_connected_nodes :: "(string \<times> rat) list"

definition get_graph_statistics :: "mdgraph \<Rightarrow> statistics" where
  "get_graph_statistics g =
    \<lparr>nodes = number_of_nodes g,
     edges = number_of_edges g,
     node_types = node_type_histogram g,
     relationship_types = relationship_type_histogram g,
     most_connected_nodes = take 10 (sort_key (\<lambda>x. - snd x) (degree_centrality g))\<rparr>"

section \<open>Export\<close>

text \<open>
  The three writers are the library's; each either writes the whole file or raises,
  leaving at the path what it had written (\<open>None\<close>: no file). The output directory is a
  map from path to contents; \<open>timestamp\<close> is what
  \<^verbatim>\<open>datetime.now().strftime('%Y%m%d_%H%M%S')\<close> reads at the call.
\<close>

datatype write_result = Written string | WriteFailed "string option" string

record writers =
  write_graphml :: "mdgraph \<Rightarrow> write_result"
  json_dump :: "mdgraph \<Rightarrow> write_result"
  write_gexf :: "mdgraph \<Rightarrow> write_result"

record kg_state =
  graph :: mdgraph
  output_dir :: string
  files :: "string \<rightharpoonup> string"

definition export_filename :: "string \<Rightarrow> string \<Rightarrow> string" where
  "export_filename timestamp format = ''erpnext_knowledge_graph_'' @ timestamp @ ''.'' @ format"

definition path_join :: "string \<Rightarrow> string \<Rightarrow> string" where
  "path_join dir filename = (if dir = ''/'' then dir @ filename else dir @ ''/'' @ filename)"

definition do_write :: "kg_state \<Rightarrow> string \<Rightarrow> write_result \<Rightarrow> (error + string) \<times> kg_state" where
  "do_write st filepath w =
    (case w of
       Written c \<Rightarrow> (Inr filepath, st\<lparr>files := (files st)(filepath \<mapsto> c)\<rparr>)
     | WriteFailed None m \<Rightarrow> (Inl (LibraryError m), st)
     | WriteFailed (Some c) m \<Rightarrow> (Inl (LibraryError m), st\<lparr>files := (files st)(filepath \<mapsto> c)\<rparr>))"

definition export_graph ::
  "writers \<Rightarrow> kg_state \<Rightarrow> string \<Rightarrow> string \<Rightarrow> (error + string) \<times> kg_state" where
  "export_graph ws st timestamp format =
    (let filename = export_filename timestamp format;
         filepath = path_join (output_dir st) filename
     in if format = ''graphml'' then do_write st filepath (write_graphml ws (graph st))
        else if format = ''json'' then do_write st filepath (json_dump ws (graph st))
        else if format = ''gexf'' then do_write st filepath (write_gexf ws (graph st))
        else (Inl (ValueError (''Unsupported format: '' @ format)), st))"

section \<open>The complete build\<close>

record complete_results =
  schema_graph :: schema_results
  document_graphs :: "(string \<times> document_results) list"
  export_paths :: "string list"
  statistics :: statistics




section \<open>Inputs and call sequences used in the statements\<close>

text \<open>A connector that is connected and knows nothing: no types, empty schemas, no records.\<close>

definition erp_none :: erpnext where
  "erp_none = \<lparr>test_connection = True, get_doctypes = [],
     get_doctype_schema = (\<lambda>_. empty_schema), get_sample_documents = (\<lambda>_ _. [])\<rparr>"







definition endpoints :: "mdgraph \<Rightarrow> (string \<times> string) list" where
  "endpoints g = map (\<lambda>(u, v, a). (u, v)) (g_edges g)"

definition two_types :: mdgraph where
  "two_types =
     \<lparr>g_nodes = [(''Customer'', []), (''Sales Order'', [])], g_edges = [], g_keys = []\<rparr>"


definition erp_offline :: erpnext where
  "erp_offline = \<lparr>test_connection = False, get_doctypes = [InfoDict (Some ''Customer'')],
     get_doctype_schema = (\<lambda>_. empty_schema), get_sample_documents = (\<lambda>_ _. [])\<rparr>"

definition erp_sales :: erpnext where
  "erp_sales = \<lparr>test_connection = True,
     get_doctypes = [InfoDict (Some ''Customer''), InfoName ''Sales Order'', InfoDict None],
     get_doctype_schema = (\<lambda>n.
        if n = ''Sales Order''
        then \<lparr>s_scalars = [(''module'', VStr ''Selling'')],
              s_fields = Fields [\<lparr>f_fieldtype = Some ''Link'', f_options = Some ''Customer''\<rparr>,
                                 \<lparr>f_fieldtype = Some ''Table'', f_options = Some ''Sales Order Item''\<rparr>]\<rparr>
        else empty_schema),
     get_sample_documents = (\<lambda>_ _. [])\<rparr>"

definition clock0 :: "nat \<Rightarrow> string" where
  "clock0 k = ''2024-01-01T00:00:00''"

text \<open>Writers that write a fixed text, and a state with an empty output directory.\<close>

definition writers_ok :: writers where
  "writers_ok = \<lparr>write_graphml = (\<lambda>g. Written ''<graphml/>''),
     json_dump = (\<lambda>g. Written ''{}''), write_gexf = (\<lambda>g. Written ''<gexf/>'')\<rparr>"

definition state0 :: kg_state where
  "state0 = \<lparr>graph = two_types, output_dir = ''/out'', files = Map.empty\<rparr>"

text \<open>
  The degree centrality as the specification words it, over the simple graph under the
  multigraph: the different ordered pairs leaving or entering the node are counted, each
  once, and divided by the number of nodes less one.
\<close>

definition simple_degree :: "mdgraph \<Rightarrow> string \<Rightarrow> nat" where
  "simple_degree g n =
     length (remdups [p \<leftarrow> endpoints g. fst p = n]) + length (remdups [p \<leftarrow> endpoints g. snd p = n])"

definition spec_degree_centrality :: "mdgraph \<Rightarrow> string \<Rightarrow> rat" where
  "spec_degree_centrality g n = of_nat (simple_degree g n) / (of_nat (number_of_nodes g) - 1)"

text \<open>Two types with two parallel edges from one to the other.\<close>

definition parallel_graph :: mdgraph where
  "parallel_graph =
     \<lparr>g_nodes = [(''Customer'', []), (''Sales Order'', [])],
      g_edges = [(''Sales Order'', ''Customer'', [(''relationship_type'', VStr ''links_to'')]),
                 (''Sales Order'', ''Customer'', [(''relationship_type'', VStr ''links_to'')])],
      g_keys = [VInt 0, VInt 1]\<rparr>"

text \<open>The kind of an edge, as the statistics read it.\<close>

definition edge_kind :: "string \<times> string \<times> pydict \<Rightarrow> pyval" where
  "edge_kind e = dget (snd (snd e)) ''relationship_type'' (VStr ''unknown'')"

text \<open>
  The names a type listing gives, and those of them the node pass makes nodes of: the
  names for which \<^verbatim>\<open>add_doctype_node\<close> does not raise, which the schema's answer decides.
\<close>

definition listed :: "erpnext \<Rightarrow> string set" where
  "listed erp = {n. Some n \<in> info_name ` set (get_doctypes erp)}"

definition node_pass_ok :: "erpnext \<Rightarrow> string \<Rightarrow> bool" where
  "node_pass_ok erp n = (s_fields (get_doctype_schema erp n) \<noteq> FieldsNull)"

definition discovered :: "erpnext \<Rightarrow> string set" where
  "discovered erp = {n \<in> listed erp. node_pass_ok erp n}"

definition results0 :: schema_results where
  "results0 = \<lparr>relationships_found = 0, errors = [], error = None, doctypes_processed = 0\<rparr>"

text \<open>What the edge pass adds for one type: edges between nodes only, of the two kinds.\<close>

definition type_edges_ok :: "mdgraph \<Rightarrow> (string \<times> string \<times> pydict) list \<Rightarrow> bool" where
  "type_edges_ok g new =
     (\<forall>e\<in>set new. has_node g (fst e) \<and> has_node g (fst (snd e)) \<and>
        (edge_kind e = VStr ''links_to'' \<or> edge_kind e = VStr ''has_child_table''))"

text \<open>What the type-level build makes of \<open>erp_sales\<close> on the empty graph.\<close>

definition sales_graph :: mdgraph where
  "sales_graph =
    \<lparr>g_nodes =
       [(''Customer'', []),
        (''Sales Order'',
         [(''node_type'', VStr ''doctype''), (''module'', VStr ''Selling''),
          (''is_custom'', VInt 0), (''is_virtual'', VInt 0), (''field_count'', VInt 2),
          (''has_web_view'', VBool False), (''is_submittable'', VBool False)])],
     g_edges =
       [(''Sales Order'', ''Customer'',
         [(''relationship_type'', VStr ''links_to''),
          (''created_at'', VStr ''2024-01-01T00:00:00'')])],
     g_keys = [VInt 0]\<rparr>"

definition sales_results :: schema_results where
  "sales_results =
     \<lparr>relationships_found = 1,
      errors = [''Error adding DocType None: None cannot be a node''],
      error = None, doctypes_processed = 2\<rparr>"

text \<open>
  The words of the instance-level matching. An edge \<open>e\<close> is a reference edge from \<open>a\<close> to
  \<open>b\<close> for the field \<open>f\<close>; the record of the pair \<open>other\<close> is named \<open>v\<close> and sits at
  another node than \<open>nid\<close>; the record of the pair \<open>a\<close> carries the string \<open>v\<close>, not
  empty, in its field \<open>f\<close>, and \<open>v\<close> names the record of \<open>other\<close> at another node.
\<close>

definition reference_edge :: "string \<Rightarrow> string \<Rightarrow> string \<Rightarrow> string \<times> string \<times> pydict \<Rightarrow> bool" where
  "reference_edge a b f e =
     (fst e = a \<and> fst (snd e) = b \<and> edge_kind e = VStr (''references_'' @ f))"

definition name_match :: "string \<Rightarrow> string \<Rightarrow> string \<times> pydict \<Rightarrow> bool" where
  "name_match nid v other = (fst other \<noteq> nid \<and> dget (snd other) ''name'' VNone = VStr v)"

definition refers :: "string \<times> pydict \<Rightarrow> string \<Rightarrow> string \<Rightarrow> string \<times> pydict \<Rightarrow> bool" where
  "refers a f v other = ((f, VStr v) \<in> set (snd a) \<and> v \<noteq> [] \<and> name_match (fst a) v other)"

text \<open>The node of a sampled record, and the pairs the first loop collects.\<close>

definition record_node :: "string \<Rightarrow> pydict \<Rightarrow> string" where
  "record_node dt doc = document_node_id dt (dget doc ''name'' VNone)"

definition sampled_nodes :: "string \<Rightarrow> pydict list \<Rightarrow> (string \<times> pydict) list" where
  "sampled_nodes dt docs =
     map (\<lambda>doc. (record_node dt doc, doc)) (filter (\<lambda>doc. truthy (dget doc ''name'' VNone)) docs)"

text \<open>Two sampled orders, the first naming the second in its field \<open>customer\<close>; and two
  that name nothing sampled.\<close>

definition doc_a :: pydict where
  "doc_a = [(''name'', VStr ''A''), (''customer'', VStr ''B'')]"

definition doc_b :: pydict where
  "doc_b = [(''name'', VStr ''B'')]"

definition doc_z :: pydict where
  "doc_z = [(''name'', VStr ''Z''), (''customer'', VStr ''Acme''), (''docstatus'', VInt 1)]"

definition erp_orders :: erpnext where
  "erp_orders = \<lparr>test_connection = True, get_doctypes = [],
     get_doctype_schema = (\<lambda>_. empty_schema),
     get_sample_documents = (\<lambda>_ _. [doc_a, doc_b])\<rparr>"

definition erp_lonely :: erpnext where
  "erp_lonely = \<lparr>test_connection = True, get_doctypes = [],
     get_doctype_schema = (\<lambda>_. empty_schema),
     get_sample_documents = (\<lambda>_ _. [doc_z, doc_b])\<rparr>"








text \<open>
  For \<^verbatim>\<open>add_doctype_node\<close>: the metadata name no parameter of \<^verbatim>\<open>add_node\<close> (none of
  the keys \<open>self\<close> and \<open>node_for_adding\<close>); and the entry the schema's summary has for
  a key, none when the schema is empty.
\<close>

definition node_keywords_ok :: "pydict option \<Rightarrow> bool" where
  "node_keywords_ok md =
     (case md of
        None \<Rightarrow> True
      | Some m \<Rightarrow> \<not> has_key m ''self'' \<and> \<not> has_key m ''node_for_adding'')"

definition summary_entry :: "schema \<Rightarrow> string \<Rightarrow> pyval option" where
  "summary_entry s k =
     (if schema_is_empty s then None
      else case schema_metadata s of Inl e \<Rightarrow> None | Inr sm \<Rightarrow> map_of sm k)"











text \<open>What the library's writer for a supported format answers for the graph.\<close>

definition writer_of :: "writers \<Rightarrow> string \<Rightarrow> mdgraph \<Rightarrow> write_result" where
  "writer_of ws format g =
     (if format = ''graphml'' then write_graphml ws g
      else if format = ''json'' then json_dump ws g
      else write_gexf ws g)"

text \<open>Four nodes with one edge, and one node alone.\<close>

definition quad_graph :: mdgraph where
  "quad_graph =
     \<lparr>g_nodes = [(''A'', []), (''B'', []), (''C'', []), (''D'', [])],
      g_edges = [(''A'', ''B'', [(''relationship_type'', VStr ''links_to'')])],
      g_keys = [VInt 0]\<rparr>"

definition single_graph :: mdgraph where
  "single_graph = \<lparr>g_nodes = [(''A'', [])], g_edges = [], g_keys = []\<rparr>"

text \<open>
  A connector whose schema for \<open>Customer\<close> has a null \<^verbatim>\<open>fields\<close> entry, and what the
  type-level build makes of it on the empty graph.
\<close>

definition erp_nullfields :: erpnext where
  "erp_nullfields = \<lparr>test_connection = True,
     get_doctypes = [InfoName ''Customer'', InfoName ''Sales Order''],
     get_doctype_schema = (\<lambda>n.
        if n = ''Customer''
        then \<lparr>s_scalars = [(''module'', VStr ''Selling'')], s_fields = FieldsNull\<rparr>
        else if n = ''Sales Order''
        then \<lparr>s_scalars = [],
              s_fields = Fields [\<lparr>f_fieldtype = Some ''Link'', f_options = Some ''Customer''\<rparr>]\<rparr>
        else empty_schema),
     get_sample_documents = (\<lambda>_ _. [])\<rparr>"

definition nullfields_graph :: mdgraph where
  "nullfields_graph =
    \<lparr>g_nodes =
       [(''Sales Order'',
         [(''node_type'', VStr ''doctype''), (''module'', VStr ''Unknown''),
          (''is_custom'', VInt 0), (''is_virtual'', VInt 0), (''field_count'', VInt 1),
          (''has_web_view'', VBool False), (''is_submittable'', VBool False)])],
     g_edges = [], g_keys = []\<rparr>"

definition nullfields_results :: schema_results where
  "nullfields_results =
     \<lparr>relationships_found = 0,
      errors = [''Error adding DocType Customer: object of type 'NoneType' has no len()''],
      error = None, doctypes_processed = 1\<rparr>"

section \<open>Properties of dictionaries\<close>

lemma map_of_dset: "map_of (dset d k v) = (map_of d)(k \<mapsto> v)"
  by (induction d) (auto simp: fun_eq_iff)

lemma keys_dset: "set (map fst (dset d k v)) = insert k (set (map fst d))"
proof (induction d)
  case Nil
  then show ?case by simp
next
  case (Cons p d)
  obtain k1 v1 where p: "p = (k1, v1)" by (cases p)
  show ?case
  proof (cases "k1 = k")
    case True
    then show ?thesis by (simp add: p)
  next
    case False
    then show ?thesis using Cons.IH by (simp add: p insert_commute)
  qed
qed

lemma distinct_dset: "distinct (map fst d) \<Longrightarrow> distinct (map fst (dset d k v))"
proof (induction d)
  case Nil
  then show ?case by simp
next
  case (Cons p d)
  obtain k1 v1 where p: "p = (k1, v1)" by (cases p)
  show ?case
  proof (cases "k1 = k")
    case True
    then show ?thesis using Cons.prems by (simp add: p)
  next
    case False
    have "k1 \<notin> set (map fst (dset d k v))"
      using Cons.prems False unfolding keys_dset by (simp add: p)
    then show ?thesis using Cons.IH Cons.prems False by (simp add: p)
  qed
qed

lemma map_of_dupdate:
  "distinct (map fst e) \<Longrightarrow>
     map_of (dupdate d e) k = (case map_of e k of None \<Rightarrow> map_of d k | Some v \<Rightarrow> Some v)"
proof (induction e arbitrary: d)
  case Nil
  then show ?case by simp
next
  case (Cons p e)
  obtain k1 v1 where p: "p = (k1, v1)" by (cases p)
  from Cons.prems have d: "distinct (map fst e)" and n: "k1 \<notin> set (map fst e)"
    by (simp_all add: p)
  have "map_of e k1 = None" using n by (simp add: map_of_eq_None_iff)
  then show ?case
    using Cons.IH [OF d, of "dset d k1 v1"] by (auto simp: p map_of_dset split: option.splits)
qed

lemma keys_dupdate: "set (map fst (dupdate d e)) = set (map fst d) \<union> set (map fst e)"
proof (induction e arbitrary: d)
  case Nil
  then show ?case by simp
next
  case (Cons p e)
  obtain k v where p: "p = (k, v)" by (cases p)
  show ?case
    using Cons.IH [of "dset d k v"] keys_dset [of d k v] unfolding p by auto
qed

lemma distinct_dupdate: "distinct (map fst d) \<Longrightarrow> distinct (map fst (dupdate d e))"
proof (induction e arbitrary: d)
  case Nil
  then show ?case by simp
next
  case (Cons p e)
  obtain k v where p: "p = (k, v)" by (cases p)
  show ?case
    using Cons.IH [of "dset d k v"] Cons.prems unfolding p by (simp add: distinct_dset)
qed


lemma has_key_iff: "has_key d k = (k \<in> set (map fst d))"
  by (simp add: has_key_def map_of_eq_None_iff)

lemma has_key_dupdate: "has_key (dupdate d e) k = (has_key d k \<or> has_key e k)"
  using keys_dupdate [of d e] by (auto simp: has_key_iff)

section \<open>Properties of the graph store\<close>

lemma node_upsert_keys:
  "map fst (node_upsert ns n a) = (if n \<in> set (map fst ns) then map fst ns else map fst ns @ [n])"
  by (induction ns) (fastforce+)


lemma map_of_node_upsert:
  "map_of (node_upsert ns n a) m =
     (if m = n then Some (dupdate (case map_of ns n of None \<Rightarrow> [] | Some b \<Rightarrow> b) a)
      else map_of ns m)"
  by (induction ns) auto

lemma has_node_add_node: "has_node (nx_add_node g n a) m = (m = n \<or> has_node g m)"
  by (auto simp: has_node_def nx_add_node_def node_upsert_keys)



lemma g_edges_add_node: "g_edges (nx_add_node g n a) = g_edges g"
  by (simp add: nx_add_node_def)

lemma node_attrs_add_node:
  "map_of (g_nodes (nx_add_node g n a)) m =
     (if m = n then Some (dupdate (case map_of (g_nodes g) n of None \<Rightarrow> [] | Some b \<Rightarrow> b) a)
      else map_of (g_nodes g) m)"
  by (simp add: nx_add_node_def map_of_node_upsert)


lemma map_of_snoc:
  "map_of (ns @ [(n, a)]) m =
     (case map_of ns m of Some b \<Rightarrow> Some b | None \<Rightarrow> if m = n then Some a else None)"
  by (induction ns) auto

lemma map_of_absent: "n \<notin> set (map fst ns) \<Longrightarrow> map_of ns n = None"
  by (simp add: map_of_eq_None_iff)

lemma ensure_node_keys:
  "set (map fst (ensure_node ns n)) = insert n (set (map fst ns))"
  by (auto simp: ensure_node_def)

lemma map_of_ensure_node:
  "map_of (ensure_node ns n) m = (if m = n \<and> n \<notin> set (map fst ns) then Some [] else map_of ns m)"
proof (cases "n \<in> set (map fst ns)")
  case True
  then show ?thesis by (simp add: ensure_node_def)
next
  case False
  then have "map_of ns n = None" by (rule map_of_absent)
  with False show ?thesis
    by (auto simp: ensure_node_def map_add_def split: option.splits)
qed

lemma ensure_node_present: "n \<in> set (map fst ns) \<Longrightarrow> ensure_node ns n = ns"
  by (simp add: ensure_node_def)

lemma hkey_VInt: "hkey (VInt i) = VInt i"
  by simp

lemma probe_key_spec:
  "n \<le> probe_key ks n fuel \<and> probe_key ks n fuel \<le> n + fuel \<and>
   (\<forall>i. n \<le> i \<and> i < probe_key ks n fuel \<longrightarrow> VInt (int i) \<in> set (map hkey ks)) \<and>
   (probe_key ks n fuel < n + fuel \<longrightarrow> VInt (int (probe_key ks n fuel)) \<notin> set (map hkey ks))"
proof (induction fuel arbitrary: n)
  case 0
  then show ?case by auto
next
  case (Suc fuel)
  show ?case
  proof (cases "VInt (int n) \<in> set (map hkey ks)")
    case False
    then show ?thesis by auto
  next
    case True
    have eq: "probe_key ks n (Suc fuel) = probe_key ks (Suc n) fuel"
      using True by simp
    from Suc.IH [of "Suc n"] have ih:
      "Suc n \<le> probe_key ks (Suc n) fuel" "probe_key ks (Suc n) fuel \<le> Suc n + fuel"
      "\<forall>i. Suc n \<le> i \<and> i < probe_key ks (Suc n) fuel \<longrightarrow> VInt (int i) \<in> set (map hkey ks)"
      "probe_key ks (Suc n) fuel < Suc n + fuel \<longrightarrow>
         VInt (int (probe_key ks (Suc n) fuel)) \<notin> set (map hkey ks)"
      by simp_all
    have "\<forall>i. n \<le> i \<and> i < probe_key ks (Suc n) fuel \<longrightarrow> VInt (int i) \<in> set (map hkey ks)"
    proof (intro allI impI)
      fix i assume "n \<le> i \<and> i < probe_key ks (Suc n) fuel"
      then show "VInt (int i) \<in> set (map hkey ks)"
        using True ih(3) by (cases "i = n") auto
    qed
    then show ?thesis
      unfolding eq using ih(1) ih(2) ih(4) by simp
  qed
qed

lemma new_edge_key_fresh: "new_edge_key ks \<notin> set (map hkey ks)"
proof -
  define l where "l = length ks"
  define r where "r = probe_key ks l l"
  from probe_key_spec [of l ks l] have s:
    "l \<le> r" "r \<le> l + l"
    "\<forall>i. l \<le> i \<and> i < r \<longrightarrow> VInt (int i) \<in> set (map hkey ks)"
    "r < l + l \<longrightarrow> VInt (int r) \<notin> set (map hkey ks)"
    by (simp_all add: r_def)
  show ?thesis
  proof (cases "r < l + l")
    case True
    with s(4) show ?thesis by (simp add: new_edge_key_def r_def l_def)
  next
    case False
    with s(2) have r: "r = l + l" by simp
    define A where "A = (\<lambda>i. VInt (int i)) ` {l..<l + l}"
    have sub: "A \<subseteq> set (map hkey ks)"
      using s(3) r by (auto simp: A_def)
    have inj: "inj_on (\<lambda>i. VInt (int i)) {l..<l + l}"
      by (simp add: inj_on_def)
    have cA: "card A = l"
      unfolding A_def using inj by (simp add: card_image)
    have "card (set (map hkey ks)) \<le> l"
      using card_length [of "map hkey ks"] by (simp add: l_def)
    then have "A = set (map hkey ks)"
      using sub cA by (intro card_seteq) simp_all
    moreover have "VInt (int (l + l)) \<notin> A"
      by (auto simp: A_def)
    ultimately show ?thesis
      by (simp add: new_edge_key_def r_def [symmetric] l_def [symmetric] r)
  qed
qed

lemma find_edge_None:
  "(find_edge zs u v k = None) =
     (\<forall>z\<in>set zs. \<not> (fst (fst z) = u \<and> fst (snd (fst z)) = v \<and> hkey (snd z) = hkey k))"
proof (induction zs)
  case Nil
  then show ?case by simp
next
  case (Cons z zs)
  obtain e k' where z: "z = (e, k')" by (cases z)
  show ?case
  proof (cases "fst e = u \<and> fst (snd e) = v \<and> hkey k' = hkey k")
    case True
    then show ?thesis by (simp add: z)
  next
    case False
    then show ?thesis using Cons.IH by (auto simp: z)
  qed
qed

lemma find_edge_Some:
  "find_edge zs u v k = Some i \<Longrightarrow> i < length zs"
  by (induction zs arbitrary: i) (auto split: if_splits)

lemma find_edge_new_key:
  "find_edge (zip (g_edges g) (g_keys g)) u v (new_edge_key (edge_keys g u v)) = None"
proof -
  have "\<forall>z\<in>set (zip (g_edges g) (g_keys g)).
      fst (fst z) = u \<and> fst (snd (fst z)) = v \<longrightarrow> hkey (snd z) \<in> set (map hkey (edge_keys g u v))"
    by (force simp: edge_keys_def)
  moreover have "hkey (new_edge_key (edge_keys g u v)) = new_edge_key (edge_keys g u v)"
    by (simp add: new_edge_key_def)
  ultimately show ?thesis
    unfolding find_edge_None using new_edge_key_fresh [of "edge_keys g u v"] by metis
qed

lemma nx_add_edge_new:
  "nx_add_edge g u v None a =
     \<lparr>g_nodes = ensure_node (ensure_node (g_nodes g) u) v,
      g_edges = g_edges g @ [(u, v, dupdate [] a)],
      g_keys = g_keys g @ [new_edge_key (edge_keys g u v)]\<rparr>"
  by (simp add: nx_add_edge_def find_edge_new_key)

lemma g_nodes_add_edge:
  "g_nodes (nx_add_edge g u v key a) = ensure_node (ensure_node (g_nodes g) u) v"
  by (simp add: nx_add_edge_def Let_def split: option.splits)

lemma has_node_add_edge:
  "has_node (nx_add_edge g u v key a) m = (m = u \<or> m = v \<or> has_node g m)"
proof -
  have "set (map fst (g_nodes (nx_add_edge g u v key a))) =
      insert v (insert u (set (map fst (g_nodes g))))"
    by (simp only: g_nodes_add_edge ensure_node_keys)
  then show ?thesis unfolding has_node_def by blast
qed

lemma g_edges_add_edge:
  "g_edges (nx_add_edge g u v None a) = g_edges g @ [(u, v, dupdate [] a)]"
  by (simp add: nx_add_edge_new)

lemma g_nodes_add_edge_present:
  "has_node g u \<Longrightarrow> has_node g v \<Longrightarrow> g_nodes (nx_add_edge g u v key a) = g_nodes g"
  by (simp add: g_nodes_add_edge has_node_def ensure_node_present)

lemma node_attrs_add_edge:
  "map_of (g_nodes (nx_add_edge g u v key a)) m =
     (if (m = u \<or> m = v) \<and> \<not> has_node g m then Some [] else map_of (g_nodes g) m)"
proof -
  have "map_of (g_nodes (nx_add_edge g u v key a)) m =
      (if m = v \<and> v \<notin> set (map fst (ensure_node (g_nodes g) u)) then Some []
       else if m = u \<and> u \<notin> set (map fst (g_nodes g)) then Some [] else map_of (g_nodes g) m)"
    by (simp only: g_nodes_add_edge map_of_ensure_node)
  then show ?thesis
    unfolding has_node_def ensure_node_keys by auto
qed

lemma document_node_id_neq: "document_node_id dt nm \<noteq> dt"
proof
  assume "document_node_id dt nm = dt"
  then have "length (document_node_id dt nm) = length dt" by simp
  then show False by (simp add: document_node_id_def)
qed

text \<open>
  C4. Every call of \<^verbatim>\<open>add_document_node\<close> returns the name \<open>type::name\<close> and appends
  exactly one edge, from that node to the type's node, whose only attribute is
  \<open>relationship = instance_of\<close>. Both ends are nodes afterwards; a type that was no node
  before is one now, with no attributes, and a type that was keeps its attributes.
\<close>
theorem add_document_node_instance_edge:
  "fst (add_document_node g dt nm d) = document_node_id dt nm \<and>
   g_edges (snd (add_document_node g dt nm d)) =
     g_edges g @ [(document_node_id dt nm, dt, [(''relationship'', VStr ''instance_of'')])] \<and>
   number_of_edges (snd (add_document_node g dt nm d)) = number_of_edges g + 1 \<and>
   has_node (snd (add_document_node g dt nm d)) (document_node_id dt nm) \<and>
   has_node (snd (add_document_node g dt nm d)) dt \<and>
   map_of (g_nodes (snd (add_document_node g dt nm d))) dt =
     (if has_node g dt then map_of (g_nodes g) dt else Some [])"
  using document_node_id_neq [of dt nm]
  by (auto simp: add_document_node_def Let_def g_edges_add_edge g_edges_add_node
      number_of_edges_def has_node_add_edge node_attrs_add_edge has_node_add_node
      node_attrs_add_node)

theorem add_document_node_instance_edge_witness:
  "\<not> has_node empty_graph ''Customer'' \<and>
   g_edges (snd (add_document_node empty_graph ''Customer'' (VStr ''C1'') [(''name'', VStr ''C1'')])) =
     [(''Customer::C1'', ''Customer'', [(''relationship'', VStr ''instance_of'')])] \<and>
   map_of (g_nodes (snd (add_document_node empty_graph ''Customer'' (VStr ''C1'')
     [(''name'', VStr ''C1'')]))) ''Customer'' = Some []"
  using add_document_node_instance_edge [of empty_graph "''Customer''" "VStr ''C1''" "[(''name'', VStr ''C1'')]"]
  by (simp add: has_node_def empty_graph_def document_node_id_def)


lemma distinct_schema_summary: "distinct (map fst (schema_summary s n))"
  by (simp add: schema_summary_def)

lemma schema_summary_keys:
  "\<not> has_key (schema_summary s n) ''self'' \<and> \<not> has_key (schema_summary s n) ''node_for_adding''"
  by (simp add: schema_summary_def has_key_def)

lemma schema_metadata_Inr:
  "schema_metadata s = Inr sm \<Longrightarrow>
     distinct (map fst sm) \<and> \<not> has_key sm ''self'' \<and> \<not> has_key sm ''node_for_adding''"
  using distinct_schema_summary schema_summary_keys
  by (auto simp: schema_metadata_def split: fields_entry.splits)

lemma schema_metadata_ok:
  "s_fields s \<noteq> FieldsNull \<Longrightarrow> \<exists>sm. schema_metadata s = Inr sm"
  by (cases "s_fields s") (simp_all add: schema_metadata_def)

lemma schema_metadata_null:
  "s_fields s = FieldsNull \<Longrightarrow> \<exists>e. schema_metadata s = Inl e \<and> \<not> schema_is_empty s"
  by (simp add: schema_metadata_def schema_is_empty_def)

text \<open>What a call of \<^verbatim>\<open>add_doctype_node\<close> that does not raise does to the graph.\<close>

lemma add_doctype_node_Some:
  assumes "node_pass_ok erp T" and "node_keywords_ok md"
  shows "\<exists>a. add_doctype_node erp g (Some T) md = Inr (nx_add_node g T a) \<and>
     (distinct (map fst (case md of None \<Rightarrow> [] | Some m \<Rightarrow> m)) \<longrightarrow>
        distinct (map fst a) \<and>
        (\<forall>k. map_of a k =
           (case summary_entry (get_doctype_schema erp T) k of
              Some v \<Rightarrow> Some v
            | None \<Rightarrow> map_of (case md of None \<Rightarrow> [] | Some m \<Rightarrow> m) k)))"
proof -
  define m where "m = (case md of None \<Rightarrow> [] | Some m \<Rightarrow> m)"
  define s where "s = get_doctype_schema erp T"
  have kw: "\<not> has_key m ''self'' \<and> \<not> has_key m ''node_for_adding''"
    using assms(2) by (cases md) (simp_all add: node_keywords_ok_def m_def has_key_def)
  show ?thesis
  proof (cases "schema_is_empty s")
    case True
    then have "add_doctype_node erp g (Some T) md = Inr (nx_add_node g T m)"
      using kw by (simp add: add_doctype_node_def doctype_node_metadata_def fmt_name_def
          s_def [symmetric] m_def [symmetric] add_node_opt_def)
    moreover have "\<forall>k. map_of m k =
           (case summary_entry s k of Some v \<Rightarrow> Some v | None \<Rightarrow> map_of m k)"
      using True by (simp add: summary_entry_def)
    ultimately show ?thesis
      unfolding m_def [symmetric] s_def [symmetric] by blast
  next
    case False
    have "s_fields s \<noteq> FieldsNull"
      using assms(1) by (simp add: node_pass_ok_def s_def)
    then obtain sm where sm: "schema_metadata s = Inr sm"
      using schema_metadata_ok by blast
    have smp: "distinct (map fst sm)" "\<not> has_key sm ''self''" "\<not> has_key sm ''node_for_adding''"
      using schema_metadata_Inr [OF sm] by simp_all
    have kw2: "\<not> has_key (dupdate m sm) ''self'' \<and> \<not> has_key (dupdate m sm) ''node_for_adding''"
      using kw smp by (simp add: has_key_dupdate)
    have r: "add_doctype_node erp g (Some T) md = Inr (nx_add_node g T (dupdate m sm))"
      using False sm kw2
      by (simp add: add_doctype_node_def doctype_node_metadata_def fmt_name_def
          s_def [symmetric] m_def [symmetric] add_node_opt_def)
    have e: "\<And>k. summary_entry s k = map_of sm k"
      using False sm by (simp add: summary_entry_def)
    have "\<forall>k. map_of (dupdate m sm) k =
           (case summary_entry s k of Some v \<Rightarrow> Some v | None \<Rightarrow> map_of m k)"
      using map_of_dupdate [OF smp(1), of m] by (simp add: e)
    moreover have "distinct (map fst m) \<longrightarrow> distinct (map fst (dupdate m sm))"
      by (simp add: distinct_dupdate)
    ultimately show ?thesis
      using r unfolding m_def [symmetric] s_def [symmetric] by blast
  qed
qed

lemma add_doctype_node_raises:
  assumes "\<not> node_pass_ok erp T \<or> \<not> node_keywords_ok md"
  shows "\<exists>e. add_doctype_node erp g (Some T) md = Inl e"
proof (cases "node_pass_ok erp T")
  case False
  then have "s_fields (get_doctype_schema erp T) = FieldsNull"
    by (simp add: node_pass_ok_def)
  from schema_metadata_null [OF this] show ?thesis
    by (auto simp: add_doctype_node_def doctype_node_metadata_def fmt_name_def)
next
  case True
  with assms have n: "\<not> node_keywords_ok md" by simp
  then obtain m where m: "md = Some m" "has_key m ''self'' \<or> has_key m ''node_for_adding''"
    by (cases md) (auto simp: node_keywords_ok_def)
  show ?thesis
  proof (cases "doctype_node_metadata erp (Some T) md")
    case (Inl e)
    then show ?thesis by (simp add: add_doctype_node_def)
  next
    case (Inr a)
    then have "has_key a ''self'' \<or> has_key a ''node_for_adding''"
      using m by (auto simp: doctype_node_metadata_def Let_def has_key_dupdate
          split: if_splits sum.splits)
    then show ?thesis using Inr by (auto simp: add_doctype_node_def add_node_opt_def)
  qed
qed











lemma add_doctype_node_Inr:
  "add_doctype_node erp g d md = Inr g1 \<Longrightarrow> \<exists>T a. d = Some T \<and> g1 = nx_add_node g T a"
  by (auto simp: add_doctype_node_def add_node_opt_def split: sum.splits if_splits option.splits)

section \<open>Properties of the type-level build\<close>

lemma add_doctype_nodes_keeps:
  "add_doctype_nodes erp infos g r = (g', r') \<Longrightarrow>
     error r' = error r \<and> relationships_found r' = relationships_found r \<and> g_edges g' = g_edges g"
proof (induction infos arbitrary: g r)
  case Nil
  then show ?case by simp
next
  case (Cons i infos)
  show ?case
  proof (cases "add_doctype_node erp g (info_name i) None")
    case (Inl e)
    with Cons.prems Cons.IH show ?thesis by fastforce
  next
    case (Inr g1)
    then have "g_edges g1 = g_edges g"
      using add_doctype_node_Inr g_edges_add_node by metis
    with Inr Cons.prems Cons.IH show ?thesis by fastforce
  qed
qed

lemma add_links_keeps_error:
  "add_links ck src kind ts g r = (g', r', eo) \<Longrightarrow> error r' = error r"
proof (induction ts arbitrary: g r)
  case Nil
  then show ?case by simp
next
  case (Cons t ts)
  then show ?case
    by (fastforce split: if_splits sum.splits)
qed

lemma add_doctype_relationships_keeps_error:
  "add_doctype_relationships erp ck d g r = (g', r') \<Longrightarrow> error r' = error r"
  unfolding add_doctype_relationships_def Let_def
  by (auto split: prod.splits option.splits dest!: add_links_keeps_error)

lemma add_all_relationships_keeps_error:
  "add_all_relationships erp ck infos g r = (g', r') \<Longrightarrow> error r' = error r"
proof (induction infos arbitrary: g r)
  case Nil
  then show ?case by simp
next
  case (Cons i infos)
  obtain g1 r1 where s: "add_doctype_relationships erp ck (info_name i) g r = (g1, r1)"
    by (cases "add_doctype_relationships erp ck (info_name i) g r")
  with Cons.prems have "add_all_relationships erp ck infos g1 r1 = (g', r')" by simp
  then have "error r' = error r1" by (rule Cons.IH)
  with add_doctype_relationships_keeps_error [OF s] show ?case by simp
qed

text \<open>
  C5. When the connection test answers not connected, \<^verbatim>\<open>build_doctype_schema_graph\<close>
  returns the graph as it was, with no type processed and \<open>error\<close> set to
  \<open>Could not connect to ERPNext\<close>; when it is connected and the listing is empty, the
  graph is as it was, no type is processed and \<open>error\<close> is \<open>No DocTypes found\<close>. The
  two messages differ, and a build that goes on leaves \<open>error\<close> unset.
\<close>
theorem build_doctype_schema_graph_aborts:
  "(\<not> test_connection erp \<longrightarrow>
      build_doctype_schema_graph erp ck g =
        (g, \<lparr>relationships_found = 0, errors = [],
              error = Some ''Could not connect to ERPNext'', doctypes_processed = 0\<rparr>)) \<and>
   (test_connection erp \<and> get_doctypes erp = [] \<longrightarrow>
      build_doctype_schema_graph erp ck g =
        (g, \<lparr>relationships_found = 0, errors = [],
              error = Some ''No DocTypes found'', doctypes_processed = 0\<rparr>)) \<and>
   (test_connection erp \<and> get_doctypes erp \<noteq> [] \<longrightarrow>
      error (snd (build_doctype_schema_graph erp ck g)) = None) \<and>
   ''Could not connect to ERPNext'' \<noteq> ''No DocTypes found''"
proof -
  have c: "test_connection erp \<and> get_doctypes erp \<noteq> [] \<longrightarrow>
      error (snd (build_doctype_schema_graph erp ck g)) = None"
  proof
    assume a: "test_connection erp \<and> get_doctypes erp \<noteq> []"
    define r0 :: schema_results where
      "r0 = \<lparr>relationships_found = 0, errors = [], error = None, doctypes_processed = 0\<rparr>"
    obtain g1 r1 where p1: "add_doctype_nodes erp (get_doctypes erp) g r0 = (g1, r1)"
      by (cases "add_doctype_nodes erp (get_doctypes erp) g r0")
    obtain g2 r2 where p2: "add_all_relationships erp ck (get_doctypes erp) g1 r1 = (g2, r2)"
      by (cases "add_all_relationships erp ck (get_doctypes erp) g1 r1")
    have "build_doctype_schema_graph erp ck g = (g2, r2)"
      using a p1 p2 by (simp add: build_doctype_schema_graph_def r0_def)
    moreover have "error r2 = None"
      using add_doctype_nodes_keeps [OF p1] add_all_relationships_keeps_error [OF p2]
      by (simp add: r0_def)
    ultimately show "error (snd (build_doctype_schema_graph erp ck g)) = None" by simp
  qed
  show ?thesis
    using c by (simp add: build_doctype_schema_graph_def)
qed

theorem build_doctype_schema_graph_aborts_witness:
  "\<not> test_connection erp_offline \<and>
   build_doctype_schema_graph erp_offline clock0 two_types =
     (two_types, \<lparr>relationships_found = 0, errors = [],
        error = Some ''Could not connect to ERPNext'', doctypes_processed = 0\<rparr>) \<and>
   test_connection erp_none \<and> get_doctypes erp_none = [] \<and>
   build_doctype_schema_graph erp_none clock0 two_types =
     (two_types, \<lparr>relationships_found = 0, errors = [],
        error = Some ''No DocTypes found'', doctypes_processed = 0\<rparr>) \<and>
   test_connection erp_sales \<and> get_doctypes erp_sales \<noteq> [] \<and>
   error (snd (build_doctype_schema_graph erp_sales clock0 two_types)) = None"
  using build_doctype_schema_graph_aborts [of erp_offline clock0 two_types]
    build_doctype_schema_graph_aborts [of erp_none clock0 two_types]
    build_doctype_schema_graph_aborts [of erp_sales clock0 two_types]
  by (simp add: erp_offline_def erp_none_def erp_sales_def)

section \<open>Properties of the export\<close>

text \<open>
  C10. A format other than \<open>json\<close>, \<open>graphml\<close> and \<open>gexf\<close> makes \<^verbatim>\<open>export_graph\<close>
  raise \<open>Unsupported format\<close> and leaves the graph, the output directory and its files
  as they are. For each of the three formats the graph goes to the library's writer for
  that format and the file is \<open>erpnext_knowledge_graph_<timestamp>.<format>\<close> in the
  output directory: when the writer writes, the call returns that path and the file holds
  what was written; when the writer raises, so does the call. No other file is touched
  and the graph is as it was.
\<close>
theorem export_graph_formats:
  "(format \<notin> {''json'', ''graphml'', ''gexf''} \<longrightarrow>
      export_graph ws st timestamp format =
        (Inl (ValueError (''Unsupported format: '' @ format)), st)) \<and>
   (format \<in> {''json'', ''graphml'', ''gexf''} \<longrightarrow>
      graph (snd (export_graph ws st timestamp format)) = graph st \<and>
      output_dir (snd (export_graph ws st timestamp format)) = output_dir st \<and>
      (\<forall>q. q \<noteq> path_join (output_dir st)
                  (''erpnext_knowledge_graph_'' @ timestamp @ ''.'' @ format) \<longrightarrow>
           files (snd (export_graph ws st timestamp format)) q = files st q) \<and>
      (\<forall>p. fst (export_graph ws st timestamp format) = Inr p \<longrightarrow>
           p = path_join (output_dir st)
                 (''erpnext_knowledge_graph_'' @ timestamp @ ''.'' @ format) \<and>
           files (snd (export_graph ws st timestamp format)) p \<noteq> None) \<and>
      (\<forall>c. writer_of ws format (graph st) = Written c \<longrightarrow>
           export_graph ws st timestamp format =
             (Inr (path_join (output_dir st)
                     (''erpnext_knowledge_graph_'' @ timestamp @ ''.'' @ format)),
              st\<lparr>files := (files st)
                (path_join (output_dir st)
                   (''erpnext_knowledge_graph_'' @ timestamp @ ''.'' @ format) \<mapsto> c)\<rparr>)) \<and>
      (\<forall>left m. writer_of ws format (graph st) = WriteFailed left m \<longrightarrow>
           fst (export_graph ws st timestamp format) = Inl (LibraryError m)))"
  by (auto simp: export_graph_def Let_def do_write_def export_filename_def writer_of_def
      split: write_result.splits option.splits)

theorem export_graph_formats_witness:
  "''csv'' \<notin> {''json'', ''graphml'', ''gexf''} \<and>
   export_graph writers_ok state0 ''20240101_120000'' ''csv'' =
     (Inl (ValueError ''Unsupported format: csv''), state0) \<and>
   ''json'' \<in> {''json'', ''graphml'', ''gexf''} \<and>
   writer_of writers_ok ''json'' (graph state0) = Written ''{}'' \<and>
   export_graph writers_ok state0 ''20240101_120000'' ''json'' =
     (Inr ''/out/erpnext_knowledge_graph_20240101_120000.json'',
      state0\<lparr>files := [''/out/erpnext_knowledge_graph_20240101_120000.json'' \<mapsto> ''{}'']\<rparr>) \<and>
   ''graphml'' \<in> {''json'', ''graphml'', ''gexf''} \<and>
   writer_of writers_ok ''graphml'' (graph state0) = Written ''<graphml/>'' \<and>
   export_graph writers_ok state0 ''20240101_120000'' ''graphml'' =
     (Inr ''/out/erpnext_knowledge_graph_20240101_120000.graphml'',
      state0\<lparr>files :=
        [''/out/erpnext_knowledge_graph_20240101_120000.graphml'' \<mapsto> ''<graphml/>'']\<rparr>) \<and>
   ''gexf'' \<in> {''json'', ''graphml'', ''gexf''} \<and>
   writer_of writers_ok ''gexf'' (graph state0) = Written ''<gexf/>'' \<and>
   export_graph writers_ok state0 ''20240101_120000'' ''gexf'' =
     (Inr ''/out/erpnext_knowledge_graph_20240101_120000.gexf'',
      state0\<lparr>files := [''/out/erpnext_knowledge_graph_20240101_120000.gexf'' \<mapsto> ''<gexf/>'']\<rparr>)"
proof -
  have a: "''csv'' \<notin> {''json'', ''graphml'', ''gexf''}" by simp
  have j: "''json'' \<in> {''json'', ''graphml'', ''gexf''}" by simp
  have m: "''graphml'' \<in> {''json'', ''graphml'', ''gexf''}" by simp
  have x: "''gexf'' \<in> {''json'', ''graphml'', ''gexf''}" by simp
  have wj: "writer_of writers_ok ''json'' (graph state0) = Written ''{}''"
    by (simp add: writer_of_def writers_ok_def)
  have wm: "writer_of writers_ok ''graphml'' (graph state0) = Written ''<graphml/>''"
    by (simp add: writer_of_def writers_ok_def)
  have wx: "writer_of writers_ok ''gexf'' (graph state0) = Written ''<gexf/>''"
    by (simp add: writer_of_def writers_ok_def)
  have pj: "path_join (output_dir state0) (''erpnext_knowledge_graph_'' @ ''20240101_120000'' @ ''.'' @ ''json'')
      = ''/out/erpnext_knowledge_graph_20240101_120000.json''"
    by (simp add: state0_def path_join_def)
  have pm: "path_join (output_dir state0) (''erpnext_knowledge_graph_'' @ ''20240101_120000'' @ ''.'' @ ''graphml'')
      = ''/out/erpnext_knowledge_graph_20240101_120000.graphml''"
    by (simp add: state0_def path_join_def)
  have px: "path_join (output_dir state0) (''erpnext_knowledge_graph_'' @ ''20240101_120000'' @ ''.'' @ ''gexf'')
      = ''/out/erpnext_knowledge_graph_20240101_120000.gexf''"
    by (simp add: state0_def path_join_def)
  have f0: "files state0 = Map.empty" by (simp add: state0_def)
  have c: "export_graph writers_ok state0 ''20240101_120000'' ''csv'' =
     (Inl (ValueError ''Unsupported format: csv''), state0)"
    using a export_graph_formats [of "''csv''" writers_ok state0 "''20240101_120000''"] by simp
  have ej: "export_graph writers_ok state0 ''20240101_120000'' ''json'' =
     (Inr ''/out/erpnext_knowledge_graph_20240101_120000.json'',
      state0\<lparr>files := [''/out/erpnext_knowledge_graph_20240101_120000.json'' \<mapsto> ''{}'']\<rparr>)"
    using j wj export_graph_formats [of "''json''" writers_ok state0 "''20240101_120000''"]
    unfolding pj f0 by blast
  have em: "export_graph writers_ok state0 ''20240101_120000'' ''graphml'' =
     (Inr ''/out/erpnext_knowledge_graph_20240101_120000.graphml'',
      state0\<lparr>files :=
        [''/out/erpnext_knowledge_graph_20240101_120000.graphml'' \<mapsto> ''<graphml/>'']\<rparr>)"
    using m wm export_graph_formats [of "''graphml''" writers_ok state0 "''20240101_120000''"]
    unfolding pm f0 by blast
  have ex: "export_graph writers_ok state0 ''20240101_120000'' ''gexf'' =
     (Inr ''/out/erpnext_knowledge_graph_20240101_120000.gexf'',
      state0\<lparr>files := [''/out/erpnext_knowledge_graph_20240101_120000.gexf'' \<mapsto> ''<gexf/>'']\<rparr>)"
    using x wx export_graph_formats [of "''gexf''" writers_ok state0 "''20240101_120000''"]
    unfolding px f0 by blast
  show ?thesis
    using a j m x wj wm wx c ej em ex by blast
qed

section \<open>Properties of the resolver and the statistics\<close>

text \<open>
  C1. The table of known relationships lists four associations of \<open>Customer\<close>, and
  with an empty schema \<^verbatim>\<open>discover_doctype_relationships\<close> returns before it reads
  the table: \<open>links_to\<close> is empty.
\<close>
theorem discover_empty_schema_skips_known:
  "map_of known_relationships ''Customer'' =
     Some [''Sales Order'', ''Sales Invoice'', ''Quotation'', ''Opportunity''] \<and>
   schema_is_empty (get_doctype_schema erp_none ''Customer'') \<and>
   discover_doctype_relationships erp_none (Some ''Customer'') =
     \<lparr>links_to = [], linked_from = [], child_tables = []\<rparr>"
  by (simp add: known_relationships_def discover_doctype_relationships_def erp_none_def
      empty_schema_def schema_is_empty_def fmt_name_def)

lemma map_of_degree_map:
  "n \<in> set (map fst ns) \<Longrightarrow> map_of (map (\<lambda>(m, data). (m, f m)) ns) n = Some (f n)"
  by (induction ns) auto

lemma map_fst_degree_map: "map fst (map (\<lambda>(m, data). (m, f m)) ns) = map fst ns"
  by (induction ns) auto

lemma degree_add_edge:
  "degree (nx_add_edge g u v None a) n =
     degree g n + (if n = u then 1 else 0) + (if n = v then 1 else 0)"
  by (simp add: degree_def g_edges_add_edge)

lemma degree_endpoints:
  "degree g n =
     length [p \<leftarrow> endpoints g. fst p = n] + length [p \<leftarrow> endpoints g. snd p = n]"
proof -
  have a: "length [e \<leftarrow> es. fst e = n] =
      length [p \<leftarrow> map (\<lambda>(u, v, a). (u, v)) es. fst p = n]" for es :: "(string \<times> string \<times> pydict) list"
    by (induction es) auto
  have b: "length [e \<leftarrow> es. fst (snd e) = n] =
      length [p \<leftarrow> map (\<lambda>(u, v, a). (u, v)) es. snd p = n]" for es :: "(string \<times> string \<times> pydict) list"
    by (induction es) auto
  show ?thesis
    unfolding degree_def endpoints_def using a [of "g_edges g"] b [of "g_edges g"] by simp
qed

text \<open>
  C2, as the code has it. The statistics return the first ten of the scores of
  \<^verbatim>\<open>degree_centrality\<close>, sorted by falling score, and there is one score for each
  node: 1 in a graph of at most one node, and otherwise the double \<^verbatim>\<open>d * (1.0 / (n - 1.0))\<close>
  for the degree \<open>d\<close> of the node and the number \<open>n\<close> of nodes, that is the quotient up to
  the rounding of floating point. The degree is that of the multigraph: the edges leaving
  the node and the edges entering it, every parallel edge counted, and one more edge
  between two nodes, parallel to others or not, adds one to the degree of each end (two
  to the node of a loop).
\<close>
theorem degree_centrality_counts_every_edge:
  "map fst (degree_centrality g) = map fst (g_nodes g) \<and>
   (has_node g n \<longrightarrow>
      map_of (degree_centrality g) n =
        Some (if number_of_nodes g \<le> 1 then 1
              else to_double (to_double (of_nat (degree g n)) *
                     to_double (1 / to_double (to_double (of_nat (number_of_nodes g)) - 1))))) \<and>
   most_connected_nodes (get_graph_statistics g) =
     take 10 (sort_key (\<lambda>x. - snd x) (degree_centrality g)) \<and>
   degree g n =
     length [p \<leftarrow> endpoints g. fst p = n] + length [p \<leftarrow> endpoints g. snd p = n] \<and>
   degree (nx_add_edge g u v None a) n =
     degree g n + (if n = u then 1 else 0) + (if n = v then 1 else 0)"
proof -
  have a: "map fst (degree_centrality g) = map fst (g_nodes g)"
    by (cases "number_of_nodes g \<le> 1")
      (simp_all only: degree_centrality_def if_True if_False map_fst_degree_map)
  have b: "has_node g n \<longrightarrow>
      map_of (degree_centrality g) n =
        Some (if number_of_nodes g \<le> 1 then 1
              else to_double (to_double (of_nat (degree g n)) *
                     to_double (1 / to_double (to_double (of_nat (number_of_nodes g)) - 1))))"
    by (simp add: degree_centrality_def has_node_def map_of_degree_map centrality_score_def)
  have c: "most_connected_nodes (get_graph_statistics g) =
     take 10 (sort_key (\<lambda>x. - snd x) (degree_centrality g))"
    by (simp add: get_graph_statistics_def)
  show ?thesis
    using a b c degree_endpoints [of g n] degree_add_edge [of g u v a n] by blast
qed

lemma score_Suc_2_2: "centrality_score (Suc (Suc 0)) (Suc (Suc 0)) = 2"
  unfolding centrality_score_def by code_simp

lemma score_2_2: "centrality_score 2 2 = 2"
  using score_Suc_2_2 by (simp add: numeral_2_eq_2)

lemma score_Suc_1_4:
  "centrality_score (Suc 0) (Suc (Suc (Suc (Suc 0)))) = 6004799503160661 / 18014398509481984"
  unfolding centrality_score_def by code_simp

lemma score_1_4: "centrality_score 1 4 = 6004799503160661 / 18014398509481984"
proof -
  have "(4 :: nat) = Suc (Suc (Suc (Suc 0)))" and "(1 :: nat) = Suc 0"
    by simp_all
  thus ?thesis using score_Suc_1_4 by (simp only:)
qed

lemma score_Suc_0_4: "centrality_score 0 (Suc (Suc (Suc (Suc 0)))) = 0"
  unfolding centrality_score_def by code_simp

lemma parallel_scores:
  "degree_centrality parallel_graph = [(''Customer'', 2), (''Sales Order'', 2)]"
  by (simp add: degree_centrality_def parallel_graph_def number_of_nodes_def degree_def
      score_Suc_2_2)

lemma quad_scores:
  "degree_centrality quad_graph =
     [(''A'', 6004799503160661 / 18014398509481984), (''B'', 6004799503160661 / 18014398509481984),
      (''C'', 0), (''D'', 0)]"
  by (simp add: degree_centrality_def quad_graph_def number_of_nodes_def degree_def
      score_Suc_1_4 score_Suc_0_4)

theorem degree_centrality_counts_every_edge_witness:
  "has_node parallel_graph ''Customer'' \<and> degree parallel_graph ''Customer'' = 2 \<and>
   map_of (degree_centrality parallel_graph) ''Customer'' = Some 2 \<and>
   most_connected_nodes (get_graph_statistics parallel_graph) =
     [(''Customer'', 2), (''Sales Order'', 2)] \<and>
   has_node quad_graph ''B'' \<and> degree quad_graph ''B'' = 1 \<and> number_of_nodes quad_graph = 4 \<and>
   map_of (degree_centrality quad_graph) ''B'' = Some (6004799503160661 / 18014398509481984) \<and>
   most_connected_nodes (get_graph_statistics quad_graph) =
     [(''A'', 6004799503160661 / 18014398509481984), (''B'', 6004799503160661 / 18014398509481984),
      (''C'', 0), (''D'', 0)] \<and>
   has_node single_graph ''A'' \<and> number_of_nodes single_graph = 1 \<and>
   map_of (degree_centrality single_graph) ''A'' = Some 1 \<and>
   most_connected_nodes (get_graph_statistics single_graph) = [(''A'', 1)]"
proof -
  have p1: "has_node parallel_graph ''Customer''"
    by (simp add: parallel_graph_def has_node_def)
  have p2: "degree parallel_graph ''Customer'' = 2"
    by (simp add: parallel_graph_def degree_def)
  have p3: "number_of_nodes parallel_graph = 2"
    by (simp add: parallel_graph_def number_of_nodes_def)
  have "map_of (degree_centrality parallel_graph) ''Customer'' =
      Some (centrality_score (degree parallel_graph ''Customer'')
        (number_of_nodes parallel_graph))"
    using degree_centrality_counts_every_edge [of parallel_graph "''Customer''"] p1 p3
    by (simp add: centrality_score_def)
  hence p4: "map_of (degree_centrality parallel_graph) ''Customer'' = Some 2"
    by (simp only: p2 p3 score_2_2)
  have p5: "most_connected_nodes (get_graph_statistics parallel_graph) =
     [(''Customer'', 2), (''Sales Order'', 2)]"
    using degree_centrality_counts_every_edge [of parallel_graph "''Customer''"]
    by (simp add: parallel_scores)
  have q1: "has_node quad_graph ''B''"
    by (simp add: quad_graph_def has_node_def)
  have q2: "degree quad_graph ''B'' = 1"
    by (simp add: quad_graph_def degree_def)
  have q3: "number_of_nodes quad_graph = 4"
    by (simp add: quad_graph_def number_of_nodes_def)
  have "map_of (degree_centrality quad_graph) ''B'' =
      Some (centrality_score (degree quad_graph ''B'') (number_of_nodes quad_graph))"
    using degree_centrality_counts_every_edge [of quad_graph "''B''"] q1 q3
    by (simp add: centrality_score_def)
  hence q4: "map_of (degree_centrality quad_graph) ''B'' =
      Some (6004799503160661 / 18014398509481984)"
    by (simp only: q2 q3 score_1_4)
  have q5: "most_connected_nodes (get_graph_statistics quad_graph) =
     [(''A'', 6004799503160661 / 18014398509481984), (''B'', 6004799503160661 / 18014398509481984),
      (''C'', 0), (''D'', 0)]"
    using degree_centrality_counts_every_edge [of quad_graph "''B''"]
    by (simp add: quad_scores)
  have s1: "has_node single_graph ''A''"
    by (simp add: single_graph_def has_node_def)
  have s2: "number_of_nodes single_graph = 1"
    by (simp add: single_graph_def number_of_nodes_def)
  have s3: "map_of (degree_centrality single_graph) ''A'' = Some 1"
    using degree_centrality_counts_every_edge [of single_graph "''A''"] s1 s2 by simp
  have s4: "most_connected_nodes (get_graph_statistics single_graph) = [(''A'', 1)]"
    using degree_centrality_counts_every_edge [of single_graph "''A''"]
    by (simp add: degree_centrality_def single_graph_def number_of_nodes_def)
  show ?thesis
    using p1 p2 p4 p5 q1 q2 q3 q4 q5 s1 s2 s3 s4 by blast
qed

text \<open>
  Against C2 as it is worded: with two parallel edges from \<open>Sales Order\<close> to
  \<open>Customer\<close> the code gives \<open>Customer\<close> the centrality 2, and the simple graph under
  the multigraph gives 1.
\<close>
theorem degree_centrality_parallel_counterexample:
  "map_of (degree_centrality parallel_graph) ''Customer'' = Some 2 \<and>
   map_of (most_connected_nodes (get_graph_statistics parallel_graph)) ''Customer'' = Some 2 \<and>
   spec_degree_centrality parallel_graph ''Customer'' = 1 \<and>
   map_of (degree_centrality parallel_graph) ''Customer''
     \<noteq> Some (spec_degree_centrality parallel_graph ''Customer'')"
proof -
  have sp: "spec_degree_centrality parallel_graph ''Customer'' = 1"
    by (simp add: spec_degree_centrality_def simple_degree_def parallel_graph_def
        number_of_nodes_def endpoints_def)
  have mc: "most_connected_nodes (get_graph_statistics parallel_graph)
      = [(''Customer'', 2), (''Sales Order'', 2)]"
    by (simp add: get_graph_statistics_def parallel_scores)
  show ?thesis by (simp add: parallel_scores sp mc)
qed

section \<open>Properties of the edge pass\<close>

lemma add_relationship_edge_no_metadata:
  "add_relationship_edge g (Some u) (Some v) k None now =
     Inr (nx_add_edge g u v None [(''relationship_type'', VStr k), (''created_at'', VStr now)])"
  by (simp add: add_relationship_edge_def add_edge_opt_def has_key_def)

lemma g_edges_add_edge_no_metadata:
  "g_edges (nx_add_edge g u v None [(''relationship_type'', VStr k), (''created_at'', VStr now)]) =
     g_edges g @ [(u, v, [(''relationship_type'', VStr k), (''created_at'', VStr now)])]"
  by (simp add: g_edges_add_edge)

lemma edge_kind_no_metadata:
  "edge_kind (u, v, [(''relationship_type'', VStr k), (''created_at'', VStr now)]) = VStr k"
  by (simp add: edge_kind_def dget_def)

lemma add_links_None:
  "add_links ck None kind ts g r = (g', r', eo) \<Longrightarrow> g' = g \<and> relationships_found r' = relationships_found r"
  by (induction ts)
    (auto simp: add_relationship_edge_def add_edge_opt_def has_key_def split: if_splits)

lemma add_links_Some:
  assumes "has_node g d" and "add_links ck (Some d) kind ts g r = (g', r', eo)"
  shows "eo = None \<and> g_nodes g' = g_nodes g \<and>
         (\<exists>new. g_edges g' = g_edges g @ new \<and>
            relationships_found r' = relationships_found r + length new \<and>
            (\<forall>e\<in>set new. fst e = d \<and> has_node g (fst (snd e)) \<and> fst (snd e) \<in> set ts \<and>
               edge_kind e = VStr kind))"
  using assms
proof (induction ts arbitrary: g r)
  case Nil
  then show ?case by simp
next
  case (Cons t ts)
  show ?case
  proof (cases "has_node g t")
    case False
    with Cons.prems have "add_links ck (Some d) kind ts g r = (g', r', eo)" by simp
    from Cons.IH [OF Cons.prems(1) this] show ?thesis by auto
  next
    case True
    define a where "a = [(''relationship_type'', VStr kind), (''created_at'', VStr (ck (number_of_edges g)))]"
    define g1 where "g1 = nx_add_edge g d t None a"
    have n1: "g_nodes g1 = g_nodes g"
      using True Cons.prems(1) by (simp add: g1_def g_nodes_add_edge_present)
    then have h1: "has_node g1 d" and hh: "\<And>m. has_node g1 m = has_node g m"
      using Cons.prems(1) by (simp_all add: has_node_def)
    have e1: "g_edges g1 = g_edges g @ [(d, t, a)]"
      by (simp add: g1_def a_def g_edges_add_edge_no_metadata)
    have "add_links ck (Some d) kind ts g1 (r\<lparr>relationships_found := relationships_found r + 1\<rparr>)
            = (g', r', eo)"
      using Cons.prems(2) True by (simp add: add_relationship_edge_no_metadata g1_def a_def)
    from Cons.IH [OF h1 this] obtain new where new:
      "eo = None" "g_nodes g' = g_nodes g1" "g_edges g' = g_edges g1 @ new"
      "relationships_found r' = relationships_found r + 1 + length new"
      "\<forall>e\<in>set new. fst e = d \<and> has_node g1 (fst (snd e)) \<and> fst (snd e) \<in> set ts \<and>
               edge_kind e = VStr kind"
      by auto
    have k: "edge_kind (d, t, a) = VStr kind"
      by (simp add: a_def edge_kind_no_metadata)
    have "g_edges g' = g_edges g @ ((d, t, a) # new)"
      using new(3) e1 by simp
    moreover have "relationships_found r' = relationships_found r + length ((d, t, a) # new)"
      using new(4) by simp
    moreover have "\<forall>e\<in>set ((d, t, a) # new). fst e = d \<and> has_node g (fst (snd e)) \<and>
         fst (snd e) \<in> set (t # ts) \<and> edge_kind e = VStr kind"
      using new(5) hh True k by auto
    ultimately show ?thesis
      using new(1) new(2) n1 by metis
  qed
qed

lemma add_doctype_relationships_Some:
  assumes "has_node g d" and "add_doctype_relationships erp ck (Some d) g r = (g', r')"
  shows "g_nodes g' = g_nodes g \<and>
         (\<exists>new. g_edges g' = g_edges g @ new \<and>
            relationships_found r' = relationships_found r + length new \<and>
            (\<forall>e\<in>set new. fst e = d) \<and> type_edges_ok g new)"
proof -
  define rel where "rel = discover_doctype_relationships erp (Some d)"
  obtain g1 r1 e1 where l1: "add_links ck (Some d) ''links_to'' (links_to rel) g r = (g1, r1, e1)"
    by (cases "add_links ck (Some d) ''links_to'' (links_to rel) g r") auto
  from add_links_Some [OF assms(1) l1] obtain new1 where n1:
    "e1 = None" "g_nodes g1 = g_nodes g" "g_edges g1 = g_edges g @ new1"
    "relationships_found r1 = relationships_found r + length new1"
    "\<forall>e\<in>set new1. fst e = d \<and> has_node g (fst (snd e)) \<and> edge_kind e = VStr ''links_to''"
    by auto
  have hh: "\<And>m. has_node g1 m = has_node g m"
    using n1(2) by (simp add: has_node_def)
  then have h1: "has_node g1 d" using assms(1) by simp
  obtain g2 r2 e2 where l2:
    "add_links ck (Some d) ''has_child_table'' (child_tables rel) g1 r1 = (g2, r2, e2)"
    by (cases "add_links ck (Some d) ''has_child_table'' (child_tables rel) g1 r1") auto
  from add_links_Some [OF h1 l2] obtain new2 where n2:
    "e2 = None" "g_nodes g2 = g_nodes g1" "g_edges g2 = g_edges g1 @ new2"
    "relationships_found r2 = relationships_found r1 + length new2"
    "\<forall>e\<in>set new2. fst e = d \<and> has_node g1 (fst (snd e)) \<and> edge_kind e = VStr ''has_child_table''"
    by auto
  have res: "g' = g2 \<and> r' = r2"
    using assms(2) l1 l2 n1(1) n2(1)
    by (simp add: add_doctype_relationships_def rel_def [symmetric])
  have "g_edges g2 = g_edges g @ (new1 @ new2)"
    using n1(3) n2(3) by simp
  moreover have "relationships_found r2 = relationships_found r + length (new1 @ new2)"
    using n1(4) n2(4) by simp
  moreover have "\<forall>e\<in>set (new1 @ new2). fst e = d"
    using n1(5) n2(5) by auto
  moreover have "type_edges_ok g (new1 @ new2)"
    unfolding type_edges_ok_def using n1(5) n2(5) hh assms(1) by auto
  ultimately show ?thesis
    using res n1(2) n2(2) by metis
qed

lemma discover_fields_null:
  "\<not> node_pass_ok erp d \<Longrightarrow>
     discover_doctype_relationships erp (Some d) =
       \<lparr>links_to = [], linked_from = [], child_tables = []\<rparr>"
  by (simp add: node_pass_ok_def discover_doctype_relationships_def fmt_name_def Let_def)

lemma add_doctype_relationships_fields_null:
  "\<not> node_pass_ok erp d \<Longrightarrow> add_doctype_relationships erp ck (Some d) g r = (g, r)"
  by (simp add: add_doctype_relationships_def discover_fields_null)

lemma discover_fields_null_None:
  "s_fields (get_doctype_schema erp ''None'') = FieldsNull \<Longrightarrow>
     discover_doctype_relationships erp None =
       \<lparr>links_to = [], linked_from = [], child_tables = []\<rparr>"
  by (simp add: discover_doctype_relationships_def fmt_name_def Let_def)

lemma add_doctype_relationships_None:
  assumes "add_doctype_relationships erp ck None g r = (g', r')"
  shows "g' = g \<and> relationships_found r' = relationships_found r"
proof -
  define rel where "rel = discover_doctype_relationships erp None"
  obtain g1 r1 e1 where l1: "add_links ck None ''links_to'' (links_to rel) g r = (g1, r1, e1)"
    by (cases "add_links ck None ''links_to'' (links_to rel) g r") auto
  obtain g2 r2 e2 where l2:
    "add_links ck None ''has_child_table'' (child_tables rel) g1 r1 = (g2, r2, e2)"
    by (cases "add_links ck None ''has_child_table'' (child_tables rel) g1 r1") auto
  from add_links_None [OF l1] add_links_None [OF l2]
  have "g1 = g" "g2 = g" "relationships_found r1 = relationships_found r"
    "relationships_found r2 = relationships_found r"
    by simp_all
  then show ?thesis
    using assms l1 l2
    by (auto simp: add_doctype_relationships_def rel_def [symmetric] split: option.splits)
qed

lemma add_all_relationships_edges:
  assumes "\<forall>i\<in>set infos. \<forall>d. info_name i = Some d \<longrightarrow> has_node g d \<or> \<not> node_pass_ok erp d"
    and "add_all_relationships erp ck infos g r = (g', r')"
  shows "g_nodes g' = g_nodes g \<and>
         (\<exists>new. g_edges g' = g_edges g @ new \<and>
            relationships_found r' = relationships_found r + length new \<and>
            (\<forall>e\<in>set new. Some (fst e) \<in> info_name ` set infos \<and> node_pass_ok erp (fst e)) \<and>
            type_edges_ok g new)"
  using assms
proof (induction infos arbitrary: g r)
  case Nil
  then show ?case by (simp add: type_edges_ok_def)
next
  case (Cons i infos)
  obtain g1 r1 where s: "add_doctype_relationships erp ck (info_name i) g r = (g1, r1)"
    by (cases "add_doctype_relationships erp ck (info_name i) g r")
  have step: "g_nodes g1 = g_nodes g \<and>
         (\<exists>new. g_edges g1 = g_edges g @ new \<and>
            relationships_found r1 = relationships_found r + length new \<and>
            (\<forall>e\<in>set new. Some (fst e) = info_name i \<and> node_pass_ok erp (fst e)) \<and>
            type_edges_ok g new)"
  proof (cases "info_name i")
    case None
    with s add_doctype_relationships_None [of erp ck g r g1 r1]
    show ?thesis by (simp add: type_edges_ok_def)
  next
    case (Some d)
    show ?thesis
    proof (cases "node_pass_ok erp d")
      case False
      with s Some add_doctype_relationships_fields_null [of erp d ck g r]
      show ?thesis by (simp add: type_edges_ok_def)
    next
      case True
      then have "has_node g d" using Cons.prems(1) Some by auto
      from add_doctype_relationships_Some [OF this, of erp ck r g1 r1] s Some True
      show ?thesis by auto
    qed
  qed
  then obtain new1 where n1: "g_nodes g1 = g_nodes g" "g_edges g1 = g_edges g @ new1"
    "relationships_found r1 = relationships_found r + length new1"
    "\<forall>e\<in>set new1. Some (fst e) = info_name i \<and> node_pass_ok erp (fst e)"
    "type_edges_ok g new1"
    by blast
  have hh: "\<And>m. has_node g1 m = has_node g m"
    using n1(1) by (simp add: has_node_def)
  have p: "\<forall>i\<in>set infos. \<forall>d. info_name i = Some d \<longrightarrow>
      has_node g1 d \<or> \<not> node_pass_ok erp d"
    using Cons.prems(1) hh by simp
  have rest: "add_all_relationships erp ck infos g1 r1 = (g', r')"
    using Cons.prems(2) s by simp
  from Cons.IH [OF p rest] obtain new2 where n2: "g_nodes g' = g_nodes g1"
    "g_edges g' = g_edges g1 @ new2"
    "relationships_found r' = relationships_found r1 + length new2"
    "\<forall>e\<in>set new2. Some (fst e) \<in> info_name ` set infos \<and> node_pass_ok erp (fst e)"
    "type_edges_ok g1 new2"
    by blast
  have "g_edges g' = g_edges g @ (new1 @ new2)"
    using n1(2) n2(2) by simp
  moreover have "relationships_found r' = relationships_found r + length (new1 @ new2)"
    using n1(3) n2(3) by simp
  moreover have "\<forall>e\<in>set (new1 @ new2).
      Some (fst e) \<in> info_name ` set (i # infos) \<and> node_pass_ok erp (fst e)"
    using n1(4) n2(4) by auto
  moreover have "type_edges_ok g (new1 @ new2)"
    using n1(5) n2(5) hh unfolding type_edges_ok_def by auto
  ultimately show ?case
    using n1(1) n2(1) by metis
qed

lemma add_doctype_node_None: "\<exists>e. add_doctype_node erp g None md = Inl e"
proof (cases "add_doctype_node erp g None md")
  case (Inl e)
  then show ?thesis by simp
next
  case (Inr g1)
  from add_doctype_node_Inr [OF this] show ?thesis by simp
qed

lemma add_doctype_nodes_nodes:
  "add_doctype_nodes erp infos g r = (g', r') \<Longrightarrow>
     has_node g' n =
       (has_node g n \<or> (Some n \<in> info_name ` set infos \<and> node_pass_ok erp n))"
proof (induction infos arbitrary: g r)
  case Nil
  then show ?case by simp
next
  case (Cons i infos)
  show ?case
  proof (cases "info_name i")
    case None
    from add_doctype_node_None [of erp g None] obtain e where
      "add_doctype_node erp g (info_name i) None = Inl e"
      using None by auto
    with Cons.prems Cons.IH None show ?thesis by fastforce
  next
    case (Some d)
    show ?thesis
    proof (cases "node_pass_ok erp d")
      case False
      from add_doctype_node_raises [of erp d None g] False obtain e where
        "add_doctype_node erp g (info_name i) None = Inl e"
        using Some by auto
      with Cons.prems have "add_doctype_nodes erp infos g
          (r\<lparr>errors := errors r @
             [''Error adding DocType '' @ fmt_name (info_name i) @ '': '' @ error_msg e]\<rparr>)
          = (g', r')"
        by simp
      then have "has_node g' n =
          (has_node g n \<or> (Some n \<in> info_name ` set infos \<and> node_pass_ok erp n))"
        by (rule Cons.IH)
      then show ?thesis using Some False by auto
    next
      case True
      have "node_keywords_ok None" by (simp add: node_keywords_ok_def)
      from add_doctype_node_Some [OF True this, of g] obtain a where
        a: "add_doctype_node erp g (Some d) None = Inr (nx_add_node g d a)"
        by blast
      define g1 where "g1 = nx_add_node g d a"
      have "add_doctype_node erp g (info_name i) None = Inr g1"
        using a Some by (simp add: g1_def)
      with Cons.prems have "add_doctype_nodes erp infos g1
          (r\<lparr>doctypes_processed := doctypes_processed r + 1\<rparr>) = (g', r')"
        by simp
      then have "has_node g' n =
          (has_node g1 n \<or> (Some n \<in> info_name ` set infos \<and> node_pass_ok erp n))"
        by (rule Cons.IH)
      then show ?thesis
        using Some True by (auto simp: g1_def has_node_add_node)
    qed
  qed
qed

text \<open>
  C8. After \<^verbatim>\<open>build_doctype_schema_graph\<close> the nodes are the nodes there were and, when
  the connection stood, the discovered types (the listed types of which the node pass made
  a node): the edge pass leaves the node dictionary as the node pass made it, so no edge
  created an end. Every edge the build added runs from a discovered type to a node that was
  there or is a discovered type, both ends are nodes, its kind is \<open>links_to\<close> or
  \<open>has_child_table\<close>, and the count reported is the number of these edges.
\<close>
theorem build_doctype_schema_graph_edges:
  assumes "build_doctype_schema_graph erp ck g = (g', r)"
  shows "(\<forall>n. has_node g' n = (has_node g n \<or> (test_connection erp \<and> n \<in> discovered erp))) \<and>
         g_nodes g' =
           (if test_connection erp
            then g_nodes (fst (add_doctype_nodes erp (get_doctypes erp) g results0))
            else g_nodes g) \<and>
         (\<exists>new. g_edges g' = g_edges g @ new \<and> relationships_found r = length new \<and>
            (\<forall>e\<in>set new.
               fst e \<in> listed erp \<and> fst e \<in> discovered erp \<and>
               has_node g' (fst e) \<and> has_node g' (fst (snd e)) \<and>
               (has_node g (fst (snd e)) \<or> fst (snd e) \<in> listed erp) \<and>
               (has_node g (fst (snd e)) \<or> fst (snd e) \<in> discovered erp) \<and>
               (edge_kind e = VStr ''links_to'' \<or> edge_kind e = VStr ''has_child_table'')))"
proof (cases "test_connection erp \<and> get_doctypes erp \<noteq> []")
  case False
  have "g' = g \<and> relationships_found r = 0"
  proof (cases "test_connection erp")
    case False
    then show ?thesis using assms by (auto simp: build_doctype_schema_graph_def)
  next
    case True
    with False have "get_doctypes erp = []" by simp
    with True show ?thesis using assms by (auto simp: build_doctype_schema_graph_def)
  qed
  moreover have "get_doctypes erp = [] \<Longrightarrow> discovered erp = {}"
    by (simp add: listed_def discovered_def)
  ultimately show ?thesis using False by auto
next
  case True
  obtain g1 r1 where p1: "add_doctype_nodes erp (get_doctypes erp) g results0 = (g1, r1)"
    by (cases "add_doctype_nodes erp (get_doctypes erp) g results0")
  have p2: "add_all_relationships erp ck (get_doctypes erp) g1 r1 = (g', r)"
    using assms True p1 by (simp add: build_doctype_schema_graph_def results0_def)
  have h1: "\<And>n. has_node g1 n = (has_node g n \<or> n \<in> discovered erp)"
    using add_doctype_nodes_nodes [OF p1] by (simp add: listed_def discovered_def)
  have k1: "relationships_found r1 = 0" "g_edges g1 = g_edges g"
    using add_doctype_nodes_keeps [OF p1] by (simp_all add: results0_def)
  have pre: "\<forall>i\<in>set (get_doctypes erp). \<forall>d. info_name i = Some d \<longrightarrow>
      has_node g1 d \<or> \<not> node_pass_ok erp d"
    using h1 by (force simp: listed_def discovered_def)
  from add_all_relationships_edges [OF pre p2] obtain new where n:
    "g_nodes g' = g_nodes g1" "g_edges g' = g_edges g1 @ new"
    "relationships_found r = relationships_found r1 + length new"
    "\<forall>e\<in>set new. Some (fst e) \<in> info_name ` set (get_doctypes erp) \<and> node_pass_ok erp (fst e)"
    "type_edges_ok g1 new"
    by blast
  have hh: "\<And>m. has_node g' m = has_node g1 m"
    using n(1) by (simp add: has_node_def)
  have A: "\<forall>n. has_node g' n = (has_node g n \<or> (test_connection erp \<and> n \<in> discovered erp))"
    using hh h1 True by simp
  have B: "g_nodes g' =
           (if test_connection erp
            then g_nodes (fst (add_doctype_nodes erp (get_doctypes erp) g results0))
            else g_nodes g)"
    using n(1) p1 True by simp
  have C: "g_edges g' = g_edges g @ new \<and> relationships_found r = length new"
    using n(2) n(3) k1 by simp
  have D: "\<forall>e\<in>set new.
               fst e \<in> listed erp \<and> fst e \<in> discovered erp \<and>
               has_node g' (fst e) \<and> has_node g' (fst (snd e)) \<and>
               (has_node g (fst (snd e)) \<or> fst (snd e) \<in> listed erp) \<and>
               (has_node g (fst (snd e)) \<or> fst (snd e) \<in> discovered erp) \<and>
               (edge_kind e = VStr ''links_to'' \<or> edge_kind e = VStr ''has_child_table'')"
    using n(4) n(5) hh h1 unfolding type_edges_ok_def listed_def discovered_def by auto
  show ?thesis using A B C D by blast
qed

lemma build_sales:
  "build_doctype_schema_graph erp_sales clock0 empty_graph = (sales_graph, sales_results)"
  by (simp add: build_doctype_schema_graph_def erp_sales_def clock0_def empty_graph_def
      sales_graph_def sales_results_def add_doctype_node_def add_node_opt_def
      doctype_node_metadata_def fmt_name_def schema_is_empty_def empty_schema_def
      schema_metadata_def schema_summary_def has_key_def dget_def nx_add_node_def
      add_doctype_relationships_def discover_doctype_relationships_def
      relationships_of_fields_def field_target_def known_relationships_def
      has_node_def add_relationship_edge_def add_edge_opt_def nx_add_edge_def ensure_node_def
      new_edge_key_def edge_keys_def number_of_edges_def relationship_error_def Let_def)

lemma build_nullfields:
  "build_doctype_schema_graph erp_nullfields clock0 empty_graph =
     (nullfields_graph, nullfields_results)"
  by (simp add: build_doctype_schema_graph_def erp_nullfields_def clock0_def empty_graph_def
      nullfields_graph_def nullfields_results_def add_doctype_node_def add_node_opt_def
      doctype_node_metadata_def fmt_name_def schema_is_empty_def empty_schema_def
      schema_metadata_def schema_summary_def has_key_def dget_def nx_add_node_def
      add_doctype_relationships_def discover_doctype_relationships_def
      relationships_of_fields_def field_target_def known_relationships_def
      has_node_def add_relationship_edge_def add_edge_opt_def nx_add_edge_def ensure_node_def
      new_edge_key_def edge_keys_def number_of_edges_def relationship_error_def Let_def)

theorem build_doctype_schema_graph_edges_witness:
  "build_doctype_schema_graph erp_nullfields clock0 empty_graph =
     (nullfields_graph, nullfields_results) \<and>
   ''Customer'' \<in> listed erp_nullfields \<and> ''Customer'' \<notin> discovered erp_nullfields \<and>
   \<not> has_node nullfields_graph ''Customer'' \<and> has_node nullfields_graph ''Sales Order'' \<and>
   g_edges nullfields_graph = [] \<and>
   build_doctype_schema_graph erp_sales clock0 empty_graph = (sales_graph, sales_results) \<and>
   endpoints sales_graph = [(''Sales Order'', ''Customer'')] \<and>
   \<not> has_node sales_graph ''Sales Order Item'' \<and>
   (\<exists>new. g_edges sales_graph = g_edges empty_graph @ new \<and>
      relationships_found sales_results = length new \<and>
      (\<forall>e\<in>set new.
         fst e \<in> listed erp_sales \<and> fst e \<in> discovered erp_sales \<and>
         has_node sales_graph (fst e) \<and>
         has_node sales_graph (fst (snd e)) \<and>
         (has_node empty_graph (fst (snd e)) \<or> fst (snd e) \<in> listed erp_sales) \<and>
         (has_node empty_graph (fst (snd e)) \<or> fst (snd e) \<in> discovered erp_sales) \<and>
         (edge_kind e = VStr ''links_to'' \<or> edge_kind e = VStr ''has_child_table'')))"
proof -
  have a: "endpoints sales_graph = [(''Sales Order'', ''Customer'')]"
    by (simp add: endpoints_def sales_graph_def)
  have b: "\<not> has_node sales_graph ''Sales Order Item''"
    by (simp add: has_node_def sales_graph_def)
  have c: "''Customer'' \<in> listed erp_nullfields \<and> ''Customer'' \<notin> discovered erp_nullfields"
    by (simp add: listed_def discovered_def node_pass_ok_def erp_nullfields_def)
  have d: "\<not> has_node nullfields_graph ''Customer'' \<and> has_node nullfields_graph ''Sales Order''"
  proof -
    have t: "test_connection erp_nullfields"
      by (simp add: erp_nullfields_def)
    have so: "''Sales Order'' \<in> discovered erp_nullfields"
      by (simp add: listed_def discovered_def node_pass_ok_def erp_nullfields_def)
    have ne: "\<not> has_node empty_graph ''Customer''"
      by (simp add: empty_graph_def has_node_def)
    from build_doctype_schema_graph_edges [OF build_nullfields]
    have "\<forall>n. has_node nullfields_graph n =
        (has_node empty_graph n \<or> (test_connection erp_nullfields \<and> n \<in> discovered erp_nullfields))"
      by blast
    then show ?thesis using c t so ne by blast
  qed
  have e: "g_edges nullfields_graph = []"
    by (simp add: nullfields_graph_def)
  show ?thesis
    using a b c d e build_sales build_nullfields
      build_doctype_schema_graph_edges [OF build_sales] by blast
qed
section \<open>Properties of the instance-level build\<close>

lemma match_others_edges:
  assumes "match_others ck nid f v others g r = (g', r', eo)"
  shows "eo = None \<and>
    (\<exists>new. g_edges g' = g_edges g @ new \<and>
       relationships_found r' = relationships_found r + length new \<and>
       (\<forall>e\<in>set new. \<exists>other\<in>set others. name_match nid v other \<and> reference_edge nid (fst other) f e) \<and>
       (\<forall>other\<in>set others. name_match nid v other \<longrightarrow>
          (\<exists>e\<in>set new. reference_edge nid (fst other) f e)))"
  using assms
proof (induction others arbitrary: g r)
  case Nil
  then show ?case by simp
next
  case (Cons ot others)
  obtain oid od where ot: "ot = (oid, od)" by (cases ot)
  show ?case
  proof (cases "name_match nid v ot")
    case False
    then have "match_others ck nid f v others g r = (g', r', eo)"
      using Cons.prems by (auto simp: ot name_match_def split: if_splits)
    from Cons.IH [OF this] False show ?thesis by auto
  next
    case True
    define a where "a = [(''relationship_type'', VStr (''references_'' @ f)),
                         (''created_at'', VStr (ck (number_of_edges g)))]"
    define g1 where "g1 = nx_add_edge g nid oid None a"
    have e1: "g_edges g1 = g_edges g @ [(nid, oid, a)]"
      by (simp add: g1_def a_def g_edges_add_edge_no_metadata)
    have re: "reference_edge nid oid f (nid, oid, a)"
      by (simp add: reference_edge_def a_def edge_kind_no_metadata)
    have "match_others ck nid f v others g1 (r\<lparr>relationships_found := relationships_found r + 1\<rparr>)
            = (g', r', eo)"
      using Cons.prems True
      by (simp add: ot name_match_def add_relationship_edge_no_metadata g1_def a_def)
    from Cons.IH [OF this] obtain new where new:
      "eo = None" "g_edges g' = g_edges g1 @ new"
      "relationships_found r' = relationships_found r + 1 + length new"
      "\<forall>e\<in>set new. \<exists>other\<in>set others. name_match nid v other \<and> reference_edge nid (fst other) f e"
      "\<forall>other\<in>set others. name_match nid v other \<longrightarrow> (\<exists>e\<in>set new. reference_edge nid (fst other) f e)"
      by auto
    have A: "g_edges g' = g_edges g @ ((nid, oid, a) # new)"
      using new(2) e1 by simp
    have B: "relationships_found r' = relationships_found r + length ((nid, oid, a) # new)"
      using new(3) by simp
    have C: "\<forall>e\<in>set ((nid, oid, a) # new).
        \<exists>other\<in>set (ot # others). name_match nid v other \<and> reference_edge nid (fst other) f e"
      using new(4) True re by (auto simp: ot)
    have D: "\<forall>other\<in>set (ot # others). name_match nid v other \<longrightarrow>
        (\<exists>e\<in>set ((nid, oid, a) # new). reference_edge nid (fst other) f e)"
      using new(5) re by (auto simp: ot)
    show ?thesis using new(1) A B C D by blast
  qed
qed

lemma match_fields_edges:
  assumes "match_fields ck nid items dn g r = (g', r', eo)"
  shows "eo = None \<and>
    (\<exists>new. g_edges g' = g_edges g @ new \<and>
       relationships_found r' = relationships_found r + length new \<and>
       (\<forall>e\<in>set new. \<exists>f v. \<exists>other\<in>set dn. refers (nid, items) f v other \<and>
            reference_edge nid (fst other) f e) \<and>
       (\<forall>f v. \<forall>other\<in>set dn. refers (nid, items) f v other \<longrightarrow>
          (\<exists>e\<in>set new. reference_edge nid (fst other) f e)))"
  using assms
proof (induction items arbitrary: g r)
  case Nil
  then show ?case by (simp add: refers_def)
next
  case (Cons it items)
  obtain fn fv where it: "it = (fn, fv)" by (cases it)
  have mono: "\<And>f v other. refers (nid, items) f v other \<Longrightarrow> refers (nid, it # items) f v other"
    by (simp add: refers_def)
  show ?case
  proof (cases "\<exists>v. fv = VStr v \<and> v \<noteq> []")
    case False
    then have skip: "match_fields ck nid items dn g r = (g', r', eo)"
      using Cons.prems by (cases fv) (auto simp: it split: if_splits)
    have same: "\<And>f v other. refers (nid, it # items) f v other = refers (nid, items) f v other"
      using False by (auto simp: refers_def it)
    from Cons.IH [OF skip] show ?thesis
      unfolding same .
  next
    case True
    then obtain v where v: "fv = VStr v" "v \<noteq> []" by blast
    obtain g1 r1 e1 where m: "match_others ck nid fn v dn g r = (g1, r1, e1)"
      by (cases "match_others ck nid fn v dn g r") auto
    from match_others_edges [OF m] obtain new1 where n1:
      "e1 = None" "g_edges g1 = g_edges g @ new1"
      "relationships_found r1 = relationships_found r + length new1"
      "\<forall>e\<in>set new1. \<exists>other\<in>set dn. name_match nid v other \<and> reference_edge nid (fst other) fn e"
      "\<forall>other\<in>set dn. name_match nid v other \<longrightarrow> (\<exists>e\<in>set new1. reference_edge nid (fst other) fn e)"
      by auto
    have rest: "match_fields ck nid items dn g1 r1 = (g', r', eo)"
      using Cons.prems m n1(1) v by (simp add: it)
    from Cons.IH [OF rest] obtain new2 where n2:
      "eo = None" "g_edges g' = g_edges g1 @ new2"
      "relationships_found r' = relationships_found r1 + length new2"
      "\<forall>e\<in>set new2. \<exists>f v. \<exists>other\<in>set dn. refers (nid, items) f v other \<and>
            reference_edge nid (fst other) f e"
      "\<forall>f v. \<forall>other\<in>set dn. refers (nid, items) f v other \<longrightarrow>
          (\<exists>e\<in>set new2. reference_edge nid (fst other) f e)"
      by auto
    have head: "\<And>other. name_match nid v other \<Longrightarrow> refers (nid, it # items) fn v other"
      using v by (simp add: refers_def it)
    have split: "\<And>f w other. refers (nid, it # items) f w other \<Longrightarrow>
        (f = fn \<and> w = v \<and> name_match nid v other) \<or> refers (nid, items) f w other"
      using v by (auto simp: refers_def it)
    have A: "g_edges g' = g_edges g @ (new1 @ new2)"
      using n1(2) n2(2) by simp
    have B: "relationships_found r' = relationships_found r + length (new1 @ new2)"
      using n1(3) n2(3) by simp
    have C: "\<forall>e\<in>set (new1 @ new2). \<exists>f v. \<exists>other\<in>set dn. refers (nid, it # items) f v other \<and>
            reference_edge nid (fst other) f e"
    proof
      fix e assume "e \<in> set (new1 @ new2)"
      then consider "e \<in> set new1" | "e \<in> set new2" by auto
      then show "\<exists>f v. \<exists>other\<in>set dn. refers (nid, it # items) f v other \<and>
            reference_edge nid (fst other) f e"
      proof cases
        case 1
        with n1(4) head show ?thesis by blast
      next
        case 2
        with n2(4) mono show ?thesis by blast
      qed
    qed
    have D: "\<forall>f w. \<forall>other\<in>set dn. refers (nid, it # items) f w other \<longrightarrow>
          (\<exists>e\<in>set (new1 @ new2). reference_edge nid (fst other) f e)"
    proof (intro allI ballI impI)
      fix f w other assume o: "other \<in> set dn" and rf: "refers (nid, it # items) f w other"
      from split [OF rf] show "\<exists>e\<in>set (new1 @ new2). reference_edge nid (fst other) f e"
      proof
        assume "f = fn \<and> w = v \<and> name_match nid v other"
        with n1(5) o obtain e where "e \<in> set new1" "reference_edge nid (fst other) f e"
          by blast
        then show ?thesis by auto
      next
        assume "refers (nid, items) f w other"
        with n2(5) o obtain e where "e \<in> set new2" "reference_edge nid (fst other) f e"
          by blast
        then show ?thesis by auto
      qed
    qed
    show ?thesis using n2(1) A B C D by blast
  qed
qed

lemma find_relationships_edges:
  assumes "find_relationships ck rest dn g r = (g', r')"
  shows "\<exists>new. g_edges g' = g_edges g @ new \<and>
       relationships_found r' = relationships_found r + length new \<and>
       (\<forall>e\<in>set new. \<exists>f v. \<exists>a\<in>set rest. \<exists>other\<in>set dn. refers a f v other \<and>
            reference_edge (fst a) (fst other) f e) \<and>
       (\<forall>f v. \<forall>a\<in>set rest. \<forall>other\<in>set dn. refers a f v other \<longrightarrow>
          (\<exists>e\<in>set new. reference_edge (fst a) (fst other) f e))"
  using assms
proof (induction rest arbitrary: g r)
  case Nil
  then show ?case by simp
next
  case (Cons a rest)
  obtain nid doc where a: "a = (nid, doc)" by (cases a)
  obtain g1 r1 e1 where m: "match_fields ck nid doc dn g r = (g1, r1, e1)"
    by (cases "match_fields ck nid doc dn g r") auto
  from match_fields_edges [OF m] obtain new1 where n1:
    "e1 = None" "g_edges g1 = g_edges g @ new1"
    "relationships_found r1 = relationships_found r + length new1"
    "\<forall>e\<in>set new1. \<exists>f v. \<exists>other\<in>set dn. refers (nid, doc) f v other \<and>
            reference_edge nid (fst other) f e"
    "\<forall>f v. \<forall>other\<in>set dn. refers (nid, doc) f v other \<longrightarrow>
          (\<exists>e\<in>set new1. reference_edge nid (fst other) f e)"
    by auto
  have "find_relationships ck rest dn g1 r1 = (g', r')"
    using Cons.prems m n1(1) by (simp add: a)
  from Cons.IH [OF this] obtain new2 where n2:
    "g_edges g' = g_edges g1 @ new2"
    "relationships_found r' = relationships_found r1 + length new2"
    "\<forall>e\<in>set new2. \<exists>f v. \<exists>a\<in>set rest. \<exists>other\<in>set dn. refers a f v other \<and>
            reference_edge (fst a) (fst other) f e"
    "\<forall>f v. \<forall>a\<in>set rest. \<forall>other\<in>set dn. refers a f v other \<longrightarrow>
          (\<exists>e\<in>set new2. reference_edge (fst a) (fst other) f e)"
    by auto
  have A: "g_edges g' = g_edges g @ (new1 @ new2)"
    using n1(2) n2(1) by simp
  have B: "relationships_found r' = relationships_found r + length (new1 @ new2)"
    using n1(3) n2(2) by simp
  have C: "\<forall>e\<in>set (new1 @ new2). \<exists>f v. \<exists>b\<in>set (a # rest). \<exists>other\<in>set dn. refers b f v other \<and>
            reference_edge (fst b) (fst other) f e"
  proof
    fix e assume "e \<in> set (new1 @ new2)"
    then consider "e \<in> set new1" | "e \<in> set new2" by auto
    then show "\<exists>f v. \<exists>b\<in>set (a # rest). \<exists>other\<in>set dn. refers b f v other \<and>
            reference_edge (fst b) (fst other) f e"
    proof cases
      case 1
      with n1(4) obtain f v other where "other \<in> set dn" "refers a f v other"
        "reference_edge (fst a) (fst other) f e"
        by (auto simp: a)
      then show ?thesis by auto
    next
      case 2
      with n2(3) show ?thesis by fastforce
    qed
  qed
  have D: "\<forall>f v. \<forall>b\<in>set (a # rest). \<forall>other\<in>set dn. refers b f v other \<longrightarrow>
          (\<exists>e\<in>set (new1 @ new2). reference_edge (fst b) (fst other) f e)"
  proof (intro allI ballI impI)
    fix f v b other
    assume b: "b \<in> set (a # rest)" and o: "other \<in> set dn" and rf: "refers b f v other"
    show "\<exists>e\<in>set (new1 @ new2). reference_edge (fst b) (fst other) f e"
    proof (cases "b = a")
      case True
      with n1(5) o rf obtain e where "e \<in> set new1" "reference_edge nid (fst other) f e"
        unfolding a by blast
      then show ?thesis using True by (auto simp: a)
    next
      case False
      with b have "b \<in> set rest" by simp
      with n2(4) o rf obtain e where "e \<in> set new2" "reference_edge (fst b) (fst other) f e"
        by blast
      then show ?thesis by auto
    qed
  qed
  show ?case using A B C D by blast
qed

lemma add_document_nodes_collects:
  assumes "add_document_nodes dt docs g dn r = (g', dn', r')"
  shows "dn' = dn @ sampled_nodes dt docs \<and> relationships_found r' = relationships_found r \<and>
     (\<exists>inst. g_edges g' = g_edges g @ inst \<and>
        (\<forall>e\<in>set inst. snd (snd e) = [(''relationship'', VStr ''instance_of'')]))"
  using assms
proof (induction docs arbitrary: g dn r)
  case Nil
  then show ?case by (simp add: sampled_nodes_def)
next
  case (Cons doc docs)
  show ?case
  proof (cases "truthy (dget doc ''name'' VNone)")
    case False
    then have "add_document_nodes dt docs g dn r = (g', dn', r')"
      using Cons.prems by simp
    from Cons.IH [OF this] False show ?thesis by (simp add: sampled_nodes_def)
  next
    case True
    define nm where "nm = dget doc ''name'' VNone"
    define g1 where "g1 = snd (add_document_node g dt nm doc)"
    have f: "add_document_node g dt nm doc = (record_node dt doc, g1)"
      by (simp add: g1_def add_document_node_def Let_def record_node_def nm_def)
    have e1: "g_edges g1 = g_edges g @ [(record_node dt doc, dt, [(''relationship'', VStr ''instance_of'')])]"
      by (simp add: g1_def add_document_node_def Let_def g_edges_add_edge g_edges_add_node
          record_node_def nm_def)
    have "add_document_nodes dt docs g1 (dn @ [(record_node dt doc, doc)])
            (r\<lparr>documents_processed := documents_processed r + 1\<rparr>) = (g', dn', r')"
      using Cons.prems True f by (simp add: nm_def Let_def)
    from Cons.IH [OF this] obtain inst where i:
      "dn' = (dn @ [(record_node dt doc, doc)]) @ sampled_nodes dt docs"
      "relationships_found r' = relationships_found r"
      "g_edges g' = g_edges g1 @ inst"
      "\<forall>e\<in>set inst. snd (snd e) = [(''relationship'', VStr ''instance_of'')]"
      by auto
    have "dn' = dn @ sampled_nodes dt (doc # docs)"
      using i(1) True by (simp add: sampled_nodes_def)
    moreover have "g_edges g' = g_edges g @
        ((record_node dt doc, dt, [(''relationship'', VStr ''instance_of'')]) # inst)"
      using i(3) e1 by simp
    moreover have "\<forall>e\<in>set ((record_node dt doc, dt, [(''relationship'', VStr ''instance_of'')]) # inst).
        snd (snd e) = [(''relationship'', VStr ''instance_of'')]"
      using i(4) by simp
    ultimately show ?thesis using i(2) by blast
  qed
qed

lemma dget_VStr_map_of: "dget d k VNone = VStr v \<Longrightarrow> map_of d k = Some (VStr v)"
  by (auto simp: dget_def split: option.splits)

lemma sampled_nodes_iff:
  "p \<in> set (sampled_nodes dt docs) =
     (\<exists>doc\<in>set docs. truthy (dget doc ''name'' VNone) \<and> p = (record_node dt doc, doc))"
  by (auto simp: sampled_nodes_def)

text \<open>
  C9. The edges \<^verbatim>\<open>build_document_relationship_graph\<close> adds are the \<open>instance_of\<close>
  edges of the sampled records followed by the reference edges, and it reports the number
  of the latter. Whenever a sampled record \<open>A\<close> with a name carries in a field \<open>f\<close> a
  string, not empty, that is the name of a sampled record \<open>B\<close> at another node, there is
  among them an edge from the node of \<open>A\<close> to the node of \<open>B\<close> of kind
  \<open>references_f\<close>. When no record's name is a field value of another record, no
  reference edge is added.
\<close>
theorem build_document_relationship_graph_references:
  assumes "build_document_relationship_graph erp ck g dt limit = (g', r)"
  shows "\<exists>inst refs. g_edges g' = g_edges g @ inst @ refs \<and>
     (\<forall>e\<in>set inst. snd (snd e) = [(''relationship'', VStr ''instance_of'')]) \<and>
     relationships_found r = length refs \<and>
     (\<forall>A\<in>set (get_sample_documents erp dt limit).
      \<forall>B\<in>set (get_sample_documents erp dt limit). \<forall>f v.
        truthy (dget A ''name'' VNone) \<and> (f, VStr v) \<in> set A \<and> v \<noteq> [] \<and>
        dget B ''name'' VNone = VStr v \<and> record_node dt B \<noteq> record_node dt A \<longrightarrow>
        (\<exists>e\<in>set refs. reference_edge (record_node dt A) (record_node dt B) f e)) \<and>
     ((\<forall>A\<in>set (get_sample_documents erp dt limit).
       \<forall>B\<in>set (get_sample_documents erp dt limit).
         A \<noteq> B \<longrightarrow> (\<forall>(f, w)\<in>set A. map_of B ''name'' \<noteq> Some w)) \<longrightarrow> refs = [])"
proof (cases "get_sample_documents erp dt limit = []")
  case True
  then have "g' = g" "relationships_found r = 0"
    using assms by (auto simp: build_document_relationship_graph_def)
  then have "g_edges g' = g_edges g @ [] @ [] \<and> relationships_found r = length ([] :: (string \<times> string \<times> pydict) list)"
    by simp
  with True show ?thesis by fastforce
next
  case False
  define docs where "docs = get_sample_documents erp dt limit"
  define r0 :: document_results where
    "r0 = \<lparr>relationships_found = 0, errors = [], error = None,
            doctype = dt, documents_processed = 0\<rparr>"
  obtain g1 dn r1 where p1: "add_document_nodes dt docs g [] r0 = (g1, dn, r1)"
    by (cases "add_document_nodes dt docs g [] r0") auto
  have p2: "find_relationships ck dn dn g1 r1 = (g', r)"
    using assms False p1 by (simp add: build_document_relationship_graph_def docs_def r0_def)
  from add_document_nodes_collects [OF p1] obtain inst where i:
    "dn = sampled_nodes dt docs" "relationships_found r1 = 0"
    "g_edges g1 = g_edges g @ inst"
    "\<forall>e\<in>set inst. snd (snd e) = [(''relationship'', VStr ''instance_of'')]"
    by (auto simp: r0_def)
  from find_relationships_edges [OF p2] obtain refs where f:
    "g_edges g' = g_edges g1 @ refs"
    "relationships_found r = relationships_found r1 + length refs"
    "\<forall>e\<in>set refs. \<exists>f v. \<exists>a\<in>set dn. \<exists>other\<in>set dn. refers a f v other \<and>
            reference_edge (fst a) (fst other) f e"
    "\<forall>f v. \<forall>a\<in>set dn. \<forall>other\<in>set dn. refers a f v other \<longrightarrow>
          (\<exists>e\<in>set refs. reference_edge (fst a) (fst other) f e)"
    by blast
  have A: "g_edges g' = g_edges g @ inst @ refs"
    using i(3) f(1) by simp
  have B: "relationships_found r = length refs"
    using i(2) f(2) by simp
  have C: "\<forall>A\<in>set docs. \<forall>B\<in>set docs. \<forall>f v.
        truthy (dget A ''name'' VNone) \<and> (f, VStr v) \<in> set A \<and> v \<noteq> [] \<and>
        dget B ''name'' VNone = VStr v \<and> record_node dt B \<noteq> record_node dt A \<longrightarrow>
        (\<exists>e\<in>set refs. reference_edge (record_node dt A) (record_node dt B) f e)"
  proof (intro ballI allI impI)
    fix A B f v
    assume A: "A \<in> set docs" and B: "B \<in> set docs"
      and h: "truthy (dget A ''name'' VNone) \<and> (f, VStr v) \<in> set A \<and> v \<noteq> [] \<and>
        dget B ''name'' VNone = VStr v \<and> record_node dt B \<noteq> record_node dt A"
    have a: "(record_node dt A, A) \<in> set dn"
      using A h by (auto simp: i(1) sampled_nodes_iff)
    have "truthy (dget B ''name'' VNone)" using h by simp
    then have b: "(record_node dt B, B) \<in> set dn"
      using B by (auto simp: i(1) sampled_nodes_iff)
    have "refers (record_node dt A, A) f v (record_node dt B, B)"
      using h by (simp add: refers_def name_match_def)
    with f(4) a b have "\<exists>e\<in>set refs. reference_edge (fst (record_node dt A, A))
        (fst (record_node dt B, B)) f e"
      by blast
    then show "\<exists>e\<in>set refs. reference_edge (record_node dt A) (record_node dt B) f e"
      by simp
  qed
  have D: "(\<forall>A\<in>set docs. \<forall>B\<in>set docs.
         A \<noteq> B \<longrightarrow> (\<forall>(f, w)\<in>set A. map_of B ''name'' \<noteq> Some w)) \<longrightarrow> refs = []"
  proof
    assume none: "\<forall>A\<in>set docs. \<forall>B\<in>set docs.
         A \<noteq> B \<longrightarrow> (\<forall>(f, w)\<in>set A. map_of B ''name'' \<noteq> Some w)"
    show "refs = []"
    proof (rule ccontr)
      assume "refs \<noteq> []"
      then obtain e where "e \<in> set refs" by (cases refs) auto
      with f(3) obtain fl v a other where x: "a \<in> set dn" "other \<in> set dn" "refers a fl v other"
        by blast
      from x(1) obtain A where A: "A \<in> set docs" "a = (record_node dt A, A)"
        by (auto simp: i(1) sampled_nodes_iff)
      from x(2) obtain B where B: "B \<in> set docs" "other = (record_node dt B, B)"
        by (auto simp: i(1) sampled_nodes_iff)
      from x(3) have y: "(fl, VStr v) \<in> set A" "record_node dt B \<noteq> record_node dt A"
        "dget B ''name'' VNone = VStr v"
        by (simp_all add: refers_def name_match_def A(2) B(2))
      from y(2) have "A \<noteq> B" by auto
      with none A(1) B(1) y(1) have "map_of B ''name'' \<noteq> Some (VStr v)" by fastforce
      with dget_VStr_map_of [OF y(3)] show False by simp
    qed
  qed
  show ?thesis
    using A B C D i(4) unfolding docs_def by blast
qed

theorem build_document_relationship_graph_references_witness:
  "truthy (dget doc_a ''name'' VNone) \<and> (''customer'', VStr ''B'') \<in> set doc_a \<and>
   dget doc_b ''name'' VNone = VStr ''B'' \<and>
   record_node ''Sales Order'' doc_a = ''Sales Order::A'' \<and>
   record_node ''Sales Order'' doc_b = ''Sales Order::B'' \<and>
   (\<exists>e\<in>set (g_edges (fst (build_document_relationship_graph erp_orders clock0 empty_graph
                  ''Sales Order'' 20))).
      reference_edge ''Sales Order::A'' ''Sales Order::B'' ''customer'' e) \<and>
   relationships_found
     (snd (build_document_relationship_graph erp_lonely clock0 empty_graph ''Sales Order'' 20)) = 0"
proof -
  have docs: "get_sample_documents erp_orders ''Sales Order'' 20 = [doc_a, doc_b]"
    by (simp add: erp_orders_def)
  have a1: "truthy (dget doc_a ''name'' VNone)" by (simp add: doc_a_def dget_def)
  have a2: "(''customer'', VStr ''B'') \<in> set doc_a" by (simp add: doc_a_def)
  have a3: "dget doc_b ''name'' VNone = VStr ''B''" by (simp add: doc_b_def dget_def)
  have a4: "record_node ''Sales Order'' doc_a = ''Sales Order::A''"
    by (simp add: record_node_def document_node_id_def doc_a_def dget_def)
  have a5: "record_node ''Sales Order'' doc_b = ''Sales Order::B''"
    by (simp add: record_node_def document_node_id_def doc_b_def dget_def)
  have a6: "record_node ''Sales Order'' doc_b \<noteq> record_node ''Sales Order'' doc_a"
    by (simp add: a4 a5)
  obtain g1 r1 where b1:
    "build_document_relationship_graph erp_orders clock0 empty_graph ''Sales Order'' 20 = (g1, r1)"
    by (cases "build_document_relationship_graph erp_orders clock0 empty_graph ''Sales Order'' 20")
  from build_document_relationship_graph_references [OF b1] obtain inst refs where o:
    "g_edges g1 = g_edges empty_graph @ inst @ refs"
    "\<forall>A\<in>set (get_sample_documents erp_orders ''Sales Order'' 20).
      \<forall>B\<in>set (get_sample_documents erp_orders ''Sales Order'' 20). \<forall>f v.
        truthy (dget A ''name'' VNone) \<and> (f, VStr v) \<in> set A \<and> v \<noteq> [] \<and>
        dget B ''name'' VNone = VStr v \<and>
        record_node ''Sales Order'' B \<noteq> record_node ''Sales Order'' A \<longrightarrow>
        (\<exists>e\<in>set refs. reference_edge (record_node ''Sales Order'' A)
            (record_node ''Sales Order'' B) f e)"
    by blast
  have "\<exists>e\<in>set refs. reference_edge (record_node ''Sales Order'' doc_a)
            (record_node ''Sales Order'' doc_b) ''customer'' e"
    using o(2) a1 a2 a3 a6 by (simp add: docs)
  then have c1: "\<exists>e\<in>set (g_edges g1). reference_edge ''Sales Order::A'' ''Sales Order::B'' ''customer'' e"
    using o(1) by (auto simp: a4 a5)
  have docs2: "get_sample_documents erp_lonely ''Sales Order'' 20 = [doc_z, doc_b]"
    by (simp add: erp_lonely_def)
  have none: "\<forall>A\<in>set (get_sample_documents erp_lonely ''Sales Order'' 20).
       \<forall>B\<in>set (get_sample_documents erp_lonely ''Sales Order'' 20).
         A \<noteq> B \<longrightarrow> (\<forall>(f, w)\<in>set A. map_of B ''name'' \<noteq> Some w)"
    by (simp add: docs2 doc_z_def doc_b_def)
  obtain g2 r2 where b2:
    "build_document_relationship_graph erp_lonely clock0 empty_graph ''Sales Order'' 20 = (g2, r2)"
    by (cases "build_document_relationship_graph erp_lonely clock0 empty_graph ''Sales Order'' 20")
  from build_document_relationship_graph_references [OF b2] none
  have c2: "relationships_found r2 = 0" by fastforce
  show ?thesis
    using a1 a2 a3 a4 a5 c1 c2 by (simp add: b1 b2)
qed

section \<open>Properties of the relationship histogram\<close>

lemma edge_kind_add_relationship_edge:
  assumes "distinct (map fst (case md of None \<Rightarrow> [] | Some m \<Rightarrow> m))"
  shows "edge_kind (u, v, dupdate []
            (dset (dset (case md of None \<Rightarrow> [] | Some m \<Rightarrow> m) ''relationship_type'' (VStr k))
               ''created_at'' (VStr now))) = VStr k"
proof -
  define m where "m = (case md of None \<Rightarrow> [] | Some m \<Rightarrow> m)"
  have "distinct (map fst (dset (dset m ''relationship_type'' (VStr k)) ''created_at'' (VStr now)))"
    using assms by (simp add: m_def [symmetric] distinct_dset)
  then have "map_of (dupdate [] (dset (dset m ''relationship_type'' (VStr k)) ''created_at'' (VStr now)))
      ''relationship_type'' = Some (VStr k)"
    by (simp add: map_of_dupdate map_of_dset)
  then show ?thesis
    by (simp add: edge_kind_def dget_def m_def)
qed














lemma reference_kind_neq: "VStr (''references_'' @ f) \<noteq> VStr ''instance_of''"
  by simp

















end
